theory Spec2Isabelle
  imports Complex_Main "HOL-Library.Multiset" "HOL-Library.Sublist" "HOL-Library.Product_Lexorder"
begin

section \<open>Python values\<close>

text \<open>
  The tools of \<^verbatim>\<open>wildfire_agent/main_agent.py\<close> work on lists of dictionaries
  \<^verbatim>\<open>Dict[str, Any]\<close>. A field value is one of the scalar Python values
  (\<^verbatim>\<open>None\<close>, a bool, an int, a float or a str); a dictionary is an association
  list read with \<open>map_of\<close>. Container-valued fields are outside the model.

  A float is an IEEE double: \<open>Finite x\<close> is the finite double of value \<open>x\<close> other
  than the negative zero, which is \<open>NegZero\<close>; then the two infinities and NaN.
  Comparing doubles, and comparing a double with an int, is exact in Python and is
  defined here. Everything that rounds is left to the runtime (see \<open>builtins\<close>).

  \<open>pyobj\<close> is what the argument \<^verbatim>\<open>aggregated: Any\<close> of \<^verbatim>\<open>build_cost_table\<close>
  or the result of \<^verbatim>\<open>json.loads\<close> can be.
\<close>

datatype pyfloat = Finite real | NegZero | PosInf | NegInf | NaN

datatype pyval = PNone | PBool bool | PInt int | PFloat pyfloat | PStr string

type_synonym row = "(string \<times> pyval) list"

datatype pyobj = Scalar pyval | DictObj row | ListObj "pyobj list"

datatype error = TypeError | ValueError | KeyError | AttributeError | OverflowError

text \<open>
  The functions of the Python runtime that the tools call and whose results the
  model does not compute:
  \<^item> \<open>float_of_str\<close>: \<^verbatim>\<open>float(s)\<close> on a string, \<open>None\<close> when it raises
    \<^verbatim>\<open>ValueError\<close>;
  \<^item> \<open>big_int_to_float\<close>: \<^verbatim>\<open>float(i)\<close> on an int beyond \<^verbatim>\<open>2**53\<close> in absolute value,
    where the conversion rounds; \<open>None\<close> when it raises \<^verbatim>\<open>OverflowError\<close>;
  \<^item> \<open>float_literal\<close>: the double that a float literal of the source denotes;
  \<^item> \<open>float_add\<close>: the sum of two doubles, rounded;
  \<^item> \<open>float_sum\<close>: the result of \<^verbatim>\<open>sum\<close> once a float is among the summands,
    from the numbers consumed (additions from left to right in CPython up to 3.11,
    compensated summation since 3.12);
  \<^item> \<open>json_loads\<close>: \<^verbatim>\<open>json.loads\<close>, \<open>None\<close> when it raises;
  \<^item> the format specifications \<^verbatim>\<open>,.2f\<close> and \<^verbatim>\<open>.1f\<close> of a float, and \<^verbatim>\<open>str\<close> of
    an int and of a float.
  Every definition takes them as the parameter \<open>B\<close>; every theorem holds for all
  of them.
\<close>

record builtins =
  float_of_str :: "string \<Rightarrow> pyfloat option"
  big_int_to_float :: "int \<Rightarrow> pyfloat option"
  float_literal :: "string \<Rightarrow> pyfloat"
  float_add :: "pyfloat \<Rightarrow> pyfloat \<Rightarrow> pyfloat"
  float_sum :: "pyval list \<Rightarrow> pyfloat"
  json_loads :: "string \<Rightarrow> pyobj option"
  format_2f :: "pyfloat \<Rightarrow> string"
  format_1f :: "pyfloat \<Rightarrow> string"
  str_of_int :: "int \<Rightarrow> string"
  str_of_float :: "pyfloat \<Rightarrow> string"

text \<open>\<^verbatim>\<open>r.get(k, d)\<close> on a dictionary.\<close>

definition row_get :: "row \<Rightarrow> string \<Rightarrow> pyval \<Rightarrow> pyval" where
  "row_get r k d = (case map_of r k of None \<Rightarrow> d | Some v \<Rightarrow> v)"

text \<open>The order of the doubles: NaN is below and above nothing, the two zeros are
  equal.\<close>

fun tier :: "pyfloat \<Rightarrow> int" where
  "tier NegInf = - 1"
| "tier (Finite x) = 0"
| "tier NegZero = 0"
| "tier PosInf = 1"
| "tier NaN = 2"

fun fin_value :: "pyfloat \<Rightarrow> real" where
  "fin_value (Finite x) = x"
| "fin_value a = 0"

definition float_lt :: "pyfloat \<Rightarrow> pyfloat \<Rightarrow> bool" where
  "float_lt a b =
     (a \<noteq> NaN \<and> b \<noteq> NaN \<and> (tier a < tier b \<or> (tier a = tier b \<and> fin_value a < fin_value b)))"

definition float_eq :: "pyfloat \<Rightarrow> pyfloat \<Rightarrow> bool" where
  "float_eq a b = (a \<noteq> NaN \<and> b \<noteq> NaN \<and> tier a = tier b \<and> fin_value a = fin_value b)"

text \<open>\<^verbatim>\<open>float(i)\<close> on an int: exact up to \<^verbatim>\<open>2**53\<close>, the runtime's rounding or
  \<^verbatim>\<open>OverflowError\<close> beyond.\<close>

definition int_to_float :: "builtins \<Rightarrow> int \<Rightarrow> pyfloat option" where
  "int_to_float B i =
     (if \<bar>i\<bar> \<le> 9007199254740992 then Some (Finite (of_int i)) else big_int_to_float B i)"

text \<open>\<^verbatim>\<open>float(v)\<close>: \<^verbatim>\<open>TypeError\<close> on \<^verbatim>\<open>None\<close>, \<^verbatim>\<open>ValueError\<close> on a string
  that is not a number, \<^verbatim>\<open>OverflowError\<close> on an int that is too large.\<close>

fun py_float :: "builtins \<Rightarrow> pyval \<Rightarrow> error + pyfloat" where
  "py_float B PNone = Inl TypeError"
| "py_float B (PBool b) = Inr (Finite (if b then 1 else 0))"
| "py_float B (PInt i) = (case int_to_float B i of None \<Rightarrow> Inl OverflowError | Some x \<Rightarrow> Inr x)"
| "py_float B (PFloat x) = Inr x"
| "py_float B (PStr s) = (case float_of_str B s of None \<Rightarrow> Inl ValueError | Some x \<Rightarrow> Inr x)"

text \<open>
  Dictionary keys are compared with \<^verbatim>\<open>==\<close>, which identifies the numbers
  \<^verbatim>\<open>True\<close>, \<^verbatim>\<open>1\<close> and \<^verbatim>\<open>1.0\<close> (an int and a double are compared by their exact
  values). \<open>hash_key\<close> maps a scalar to its class. Whether two NaN keys are the same
  key depends on the identity of the objects in Python; here they are one key, and
  the properties of the grouping exclude NaN keys.
\<close>

datatype hkey = HNone | HNum real | HPosInf | HNegInf | HNaN | HStr string

fun hash_key :: "pyval \<Rightarrow> hkey" where
  "hash_key PNone = HNone"
| "hash_key (PBool b) = HNum (if b then 1 else 0)"
| "hash_key (PInt i) = HNum (of_int i)"
| "hash_key (PFloat (Finite x)) = HNum x"
| "hash_key (PFloat NegZero) = HNum 0"
| "hash_key (PFloat PosInf) = HPosInf"
| "hash_key (PFloat NegInf) = HNegInf"
| "hash_key (PFloat NaN) = HNaN"
| "hash_key (PStr s) = HStr s"

section \<open>Session memory\<close>

text \<open>
  \<^verbatim>\<open>SESSION_MEMORY: Dict[str, Dict[str, Any]]\<close>, a module-level dictionary. Each
  session's dictionary has the seven keys that \<^verbatim>\<open>_get_session_memory\<close> creates;
  \<open>None\<close> is Python's \<^verbatim>\<open>None\<close>.
\<close>

record session_memory =
  last_year :: "int option"
  last_raw_records :: "row list option"
  last_aggregated :: "row list option"
  last_compacted :: "row list option"
  last_summary :: "string option"
  last_search_query :: "string option"
  last_search_results :: "string option"

type_synonym store = "string \<rightharpoonup> session_memory"

definition fresh_memory :: session_memory where
  "fresh_memory = \<lparr> last_year = None, last_raw_records = None, last_aggregated = None,
     last_compacted = None, last_summary = None, last_search_query = None,
     last_search_results = None \<rparr>"

text \<open>\<^verbatim>\<open>_get_session_memory\<close>: returns the session's dictionary, creating it first
  when the identifier is new.\<close>

definition get_session_memory :: "string \<Rightarrow> store \<Rightarrow> session_memory \<times> store" where
  "get_session_memory session_id st =
     (case st session_id of
        None \<Rightarrow> (fresh_memory, st(session_id \<mapsto> fresh_memory))
      | Some mem \<Rightarrow> (mem, st))"

section \<open>Sorting by a float key, largest first\<close>

text \<open>
  \<^verbatim>\<open>list.sort\<close> and \<^verbatim>\<open>sorted\<close> with \<^verbatim>\<open>key=\<close> and \<^verbatim>\<open>reverse=True\<close> compute the
  key of every item once, compare keys with \<^verbatim>\<open><\<close> and are stable: items whose keys
  do not differ keep their order. When no key is NaN the keys are totally ordered, the
  result is determined by that, and it is the list defined here (an item moves behind
  the items of greater key and no others). With a NaN among the keys the result of
  Python's sort depends on its merge strategy, which this definition does not follow;
  the properties about the order assume keys without NaN.
\<close>

fun insert_desc :: "pyfloat \<times> 'a \<Rightarrow> (pyfloat \<times> 'a) list \<Rightarrow> (pyfloat \<times> 'a) list" where
  "insert_desc x [] = [x]"
| "insert_desc x (y # ys) =
     (if float_lt (fst x) (fst y) then y # insert_desc x ys else x # y # ys)"

fun sort_desc :: "(pyfloat \<times> 'a) list \<Rightarrow> (pyfloat \<times> 'a) list" where
  "sort_desc [] = []"
| "sort_desc (x # xs) = insert_desc x (sort_desc xs)"

definition sorted_desc :: "pyfloat list \<Rightarrow> 'a list \<Rightarrow> 'a list" where
  "sorted_desc keys xs = map snd (sort_desc (zip keys xs))"

section \<open>aggregate_costs\<close>

text \<open>
  The inner dictionaries of \<^verbatim>\<open>totals\<close> have the four fixed keys of the source; the
  outer dictionary keeps its insertion order, as Python's does. A new bucket starts
  at \<^verbatim>\<open>0.0\<close>, and \<^verbatim>\<open>+=\<close> is the addition of doubles.
\<close>

record bucket =
  b_region :: pyval
  b_category :: pyval
  b_total_cost :: pyfloat
  b_hours :: pyfloat

type_synonym totals = "((hkey \<times> hkey) \<times> bucket) list"

definition row_key :: "row \<Rightarrow> hkey \<times> hkey" where
  "row_key r = (hash_key (row_get r ''region'' PNone), hash_key (row_get r ''category'' PNone))"

text \<open>\<^verbatim>\<open>totals[key][field] = f(totals[key][field])\<close>.\<close>

definition modify :: "hkey \<times> hkey \<Rightarrow> (bucket \<Rightarrow> bucket) \<Rightarrow> totals \<Rightarrow> totals" where
  "modify k f ts = map (\<lambda>(k', b). if k' = k then (k', f b) else (k', b)) ts"

fun agg_loop :: "builtins \<Rightarrow> row list \<Rightarrow> totals \<Rightarrow> error + totals" where
  "agg_loop B [] ts = Inr ts"
| "agg_loop B (r # rs) ts =
     (let region = row_get r ''region'' PNone;
          category = row_get r ''category'' PNone
      in case py_float B (row_get r ''cost'' (PFloat (Finite 0))) of
           Inl e \<Rightarrow> Inl e
         | Inr cost \<Rightarrow>
           (case py_float B (row_get r ''hours'' (PFloat (Finite 0))) of
              Inl e \<Rightarrow> Inl e
            | Inr hours \<Rightarrow>
              (let key = (hash_key region, hash_key category);
                   ts1 = (if key \<notin> set (map fst ts)
                          then ts @ [(key, \<lparr> b_region = region, b_category = category,
                                              b_total_cost = Finite 0, b_hours = Finite 0 \<rparr>)]
                          else ts);
                   ts2 = modify key (\<lambda>b. b\<lparr> b_total_cost := float_add B (b_total_cost b) cost \<rparr>) ts1;
                   ts3 = modify key (\<lambda>b. b\<lparr> b_hours := float_add B (b_hours b) hours \<rparr>) ts2
               in agg_loop B rs ts3)))"

definition row_of_bucket :: "bucket \<Rightarrow> row" where
  "row_of_bucket b = [(''region'', b_region b), (''category'', b_category b),
     (''total_cost'', PFloat (b_total_cost b)), (''hours'', PFloat (b_hours b))]"

definition aggregate_costs ::
  "builtins \<Rightarrow> row list \<Rightarrow> string \<Rightarrow> store \<Rightarrow> (error + row list) \<times> store" where
  "aggregate_costs B records session_id st =
     (case agg_loop B records [] of
        Inl e \<Rightarrow> (Inl e, st)
      | Inr ts \<Rightarrow>
          (let aggregated_list =
                 map row_of_bucket (sorted_desc (map (\<lambda>p. b_total_cost (snd p)) ts) (map snd ts));
               (mem, st1) = get_session_memory session_id st
           in (Inr aggregated_list,
               st1(session_id \<mapsto> mem\<lparr> last_aggregated := Some aggregated_list \<rparr>))))"

section \<open>compact_aggregated_costs\<close>

text \<open>
  \<^verbatim>\<open>sorted(aggregated, key=lambda x: float(x.get("total_cost", 0.0)), reverse=True)\<close>
  computes the key of every row first, in order, and raises at the first row whose
  key raises.
\<close>

fun key_list :: "builtins \<Rightarrow> row list \<Rightarrow> error + pyfloat list" where
  "key_list B [] = Inr []"
| "key_list B (x # xs) =
     (case py_float B (row_get x ''total_cost'' (PFloat (Finite 0))) of
        Inl e \<Rightarrow> Inl e
      | Inr k \<Rightarrow> (case key_list B xs of Inl e \<Rightarrow> Inl e | Inr ks \<Rightarrow> Inr (k # ks)))"

text \<open>The slice \<^verbatim>\<open>xs[:k]\<close>; a negative \<open>k\<close> counts from the end.\<close>

definition slice_to :: "int \<Rightarrow> 'a list \<Rightarrow> 'a list" where
  "slice_to k xs = (if 0 \<le> k then take (nat k) xs else take (length xs - nat (- k)) xs)"

definition compact_aggregated_costs ::
  "builtins \<Rightarrow> row list \<Rightarrow> int \<Rightarrow> string \<Rightarrow> store \<Rightarrow> (error + row list) \<times> store" where
  "compact_aggregated_costs B aggregated max_rows session_id st =
     (case key_list B aggregated of
        Inl e \<Rightarrow> (Inl e, st)
      | Inr keys \<Rightarrow>
          (let sorted_rows = sorted_desc keys aggregated;
               compacted = slice_to max_rows sorted_rows;
               (mem, st1) = get_session_memory session_id st
           in (Inr compacted, st1(session_id \<mapsto> mem\<lparr> last_compacted := Some compacted \<rparr>))))"

section \<open>build_cost_table\<close>

definition newline :: string where
  "newline = [CHR 0x0A]"

text \<open>The en dash of the source, U+2013, in UTF-8.\<close>

definition en_dash :: string where
  "en_dash = [CHR 0xE2, CHR 0x80, CHR 0x93]"

text \<open>\<^verbatim>\<open>sep.join(lines)\<close>.\<close>

fun join :: "string \<Rightarrow> string list \<Rightarrow> string" where
  "join sep [] = []"
| "join sep [l] = l"
| "join sep (l # m # ls) = l @ sep @ join sep (m # ls)"

text \<open>\<^verbatim>\<open>f"{v}"\<close>, that is \<^verbatim>\<open>str(v)\<close>.\<close>

fun py_str :: "builtins \<Rightarrow> pyval \<Rightarrow> string" where
  "py_str B PNone = ''None''"
| "py_str B (PBool b) = (if b then ''True'' else ''False'')"
| "py_str B (PInt i) = str_of_int B i"
| "py_str B (PFloat x) = str_of_float B x"
| "py_str B (PStr s) = s"

text \<open>A bool or an int as an int; \<open>None\<close> for every other value.\<close>

fun int_val :: "pyval \<Rightarrow> int option" where
  "int_val (PBool b) = Some (if b then 1 else 0)"
| "int_val (PInt i) = Some i"
| "int_val v = None"

text \<open>The exact value of a number, for comparisons: Python compares an int with a
  double without rounding the int.\<close>

fun num_val :: "pyval \<Rightarrow> pyfloat option" where
  "num_val PNone = None"
| "num_val (PBool b) = Some (Finite (if b then 1 else 0))"
| "num_val (PInt i) = Some (Finite (of_int i))"
| "num_val (PFloat x) = Some x"
| "num_val (PStr s) = None"

text \<open>\<^verbatim>\<open>len(v)\<close>, \<^verbatim>\<open>bool(v)\<close> and \<^verbatim>\<open>iter(v)\<close>.\<close>

fun py_len :: "pyobj \<Rightarrow> error + nat" where
  "py_len (ListObj xs) = Inr (length xs)"
| "py_len (DictObj d) = Inr (length d)"
| "py_len (Scalar (PStr s)) = Inr (length s)"
| "py_len (Scalar v) = Inl TypeError"

fun py_truthy :: "pyobj \<Rightarrow> bool" where
  "py_truthy (ListObj xs) = (xs \<noteq> [])"
| "py_truthy (DictObj d) = (d \<noteq> [])"
| "py_truthy (Scalar PNone) = False"
| "py_truthy (Scalar (PBool b)) = b"
| "py_truthy (Scalar (PInt i)) = (i \<noteq> 0)"
| "py_truthy (Scalar (PFloat x)) = (x \<noteq> Finite 0 \<and> x \<noteq> NegZero)"
| "py_truthy (Scalar (PStr s)) = (s \<noteq> [])"

fun py_iter :: "pyobj \<Rightarrow> error + pyobj list" where
  "py_iter (ListObj xs) = Inr xs"
| "py_iter (DictObj d) = Inr (map (\<lambda>p. Scalar (PStr (fst p))) d)"
| "py_iter (Scalar (PStr s)) = Inr (map (\<lambda>c. Scalar (PStr [c])) s)"
| "py_iter (Scalar v) = Inl TypeError"

text \<open>\<^verbatim>\<open>x[k]\<close>: \<^verbatim>\<open>KeyError\<close> on a dictionary without the key, \<^verbatim>\<open>TypeError\<close> on
  what is not a dictionary.\<close>

fun obj_index :: "pyobj \<Rightarrow> string \<Rightarrow> error + pyval" where
  "obj_index (DictObj r) k = (case map_of r k of None \<Rightarrow> Inl KeyError | Some v \<Rightarrow> Inr v)"
| "obj_index (Scalar v) k = Inl TypeError"
| "obj_index (ListObj xs) k = Inl TypeError"

text \<open>One pass of the table loop. \<^verbatim>\<open>row.get\<close> raises \<^verbatim>\<open>AttributeError\<close> on a
  row that is not a dictionary.\<close>

fun table_line :: "builtins \<Rightarrow> pyobj \<Rightarrow> error + string" where
  "table_line B (DictObj row) =
     (let region = row_get row ''region'' (PStr []);
          category = row_get row ''category'' (PStr [])
      in case py_float B (row_get row ''total_cost'' (PFloat (Finite 0))) of
           Inl e \<Rightarrow> Inl e
         | Inr total_cost \<Rightarrow>
           (case py_float B (row_get row ''hours'' (PFloat (Finite 0))) of
              Inl e \<Rightarrow> Inl e
            | Inr hours \<Rightarrow>
                Inr (py_str B region @ '' | '' @ py_str B category @ '' | '' @
                     format_2f B total_cost @ '' | '' @ format_1f B hours)))"
| "table_line B (Scalar v) = Inl AttributeError"
| "table_line B (ListObj xs) = Inl AttributeError"

fun table_lines :: "builtins \<Rightarrow> pyobj list \<Rightarrow> string list \<Rightarrow> error + string list" where
  "table_lines B [] lines = Inr lines"
| "table_lines B (row # rows) lines =
     (case table_line B row of
        Inl e \<Rightarrow> Inl e
      | Inr l \<Rightarrow> table_lines B rows (lines @ [l]))"

text \<open>
  \<^verbatim>\<open>a > b\<close> on scalars: numbers by value, strings by code points, \<^verbatim>\<open>TypeError\<close>
  otherwise.
\<close>

fun str_gt :: "string \<Rightarrow> string \<Rightarrow> bool" where
  "str_gt [] t = False"
| "str_gt (x # xs) [] = True"
| "str_gt (x # xs) (y # ys) =
     (if x = y then str_gt xs ys else (of_char y :: nat) < of_char x)"

definition py_gt :: "pyval \<Rightarrow> pyval \<Rightarrow> error + bool" where
  "py_gt a b =
     (case (num_val a, num_val b) of
        (Some x, Some y) \<Rightarrow> Inr (float_lt y x)
      | _ \<Rightarrow> (case (a, b) of (PStr s, PStr t) \<Rightarrow> Inr (str_gt s t) | _ \<Rightarrow> Inl TypeError))"

text \<open>
  \<^verbatim>\<open>max(aggregated, key=lambda x: x["total_cost"])\<close>: the key of each item is
  computed when the item is reached; the first of several maximal items wins.
\<close>

fun max_loop :: "pyobj \<Rightarrow> pyval \<Rightarrow> pyobj list \<Rightarrow> error + pyobj" where
  "max_loop best bk [] = Inr best"
| "max_loop best bk (r # rs) =
     (case obj_index r ''total_cost'' of
        Inl e \<Rightarrow> Inl e
      | Inr k \<Rightarrow>
        (case py_gt k bk of
           Inl e \<Rightarrow> Inl e
         | Inr b \<Rightarrow> if b then max_loop r k rs else max_loop best bk rs))"

definition py_max :: "pyobj list \<Rightarrow> error + pyobj" where
  "py_max rows =
     (case rows of
        [] \<Rightarrow> Inl ValueError
      | r # rs \<Rightarrow>
        (case obj_index r ''total_cost'' of
           Inl e \<Rightarrow> Inl e
         | Inr k \<Rightarrow> max_loop r k rs))"

text \<open>
  \<^verbatim>\<open>sum\<close> starts from the int 0. While every summand is a bool or an int the sum
  is an exact int. From the first float on the result is a float: the int reached so
  far is converted, every later int is converted when it is consumed (either
  conversion can raise \<^verbatim>\<open>OverflowError\<close>), and the value is the runtime's
  \<open>float_sum\<close> of the numbers consumed. A summand that is not a number raises
  \<^verbatim>\<open>TypeError\<close>.
\<close>

datatype sum_acc = IntAcc int | FloatAcc "pyval list"

fun sum_step :: "builtins \<Rightarrow> sum_acc \<Rightarrow> pyval \<Rightarrow> error + sum_acc" where
  "sum_step B acc PNone = Inl TypeError"
| "sum_step B acc (PStr s) = Inl TypeError"
| "sum_step B (IntAcc m) (PFloat y) =
     (case int_to_float B m of
        None \<Rightarrow> Inl OverflowError
      | Some x \<Rightarrow> Inr (FloatAcc [PInt m, PFloat y]))"
| "sum_step B (FloatAcc vs) (PFloat y) = Inr (FloatAcc (vs @ [PFloat y]))"
| "sum_step B (IntAcc m) v = (case int_val v of None \<Rightarrow> Inl TypeError | Some n \<Rightarrow> Inr (IntAcc (m + n)))"
| "sum_step B (FloatAcc vs) v =
     (case int_val v of
        None \<Rightarrow> Inl TypeError
      | Some n \<Rightarrow>
        (case int_to_float B n of
           None \<Rightarrow> Inl OverflowError
         | Some x \<Rightarrow> Inr (FloatAcc (vs @ [PInt n]))))"

fun sum_result :: "builtins \<Rightarrow> sum_acc \<Rightarrow> pyval" where
  "sum_result B (IntAcc m) = PInt m"
| "sum_result B (FloatAcc vs) = PFloat (float_sum B vs)"

text \<open>\<^verbatim>\<open>sum(r["total_cost"] for r in aggregated if r["category"] == c)\<close>, from the
  accumulator \<open>acc\<close> (the int 0 at the start).\<close>

fun category_sum :: "builtins \<Rightarrow> string \<Rightarrow> pyobj list \<Rightarrow> sum_acc \<Rightarrow> error + pyval" where
  "category_sum B c [] acc = Inr (sum_result B acc)"
| "category_sum B c (r # rs) acc =
     (case obj_index r ''category'' of
        Inl e \<Rightarrow> Inl e
      | Inr cat \<Rightarrow>
          if cat = PStr c
          then (case obj_index r ''total_cost'' of
                  Inl e \<Rightarrow> Inl e
                | Inr v \<Rightarrow>
                  (case sum_step B acc v of
                     Inl e \<Rightarrow> Inl e
                   | Inr acc' \<Rightarrow> category_sum B c rs acc'))
          else category_sum B c rs acc)"

text \<open>\<^verbatim>\<open>f"{v:,.2f}"\<close>: a float is formatted, a bool or an int is converted to a
  float first (\<^verbatim>\<open>OverflowError\<close> when it is too large), a string raises
  \<^verbatim>\<open>ValueError\<close>, \<^verbatim>\<open>None\<close> raises \<^verbatim>\<open>TypeError\<close>.\<close>

fun format_money :: "builtins \<Rightarrow> pyval \<Rightarrow> error + string" where
  "format_money B PNone = Inl TypeError"
| "format_money B (PStr s) = Inl ValueError"
| "format_money B (PFloat x) = Inr (format_2f B x)"
| "format_money B v =
     (case int_val v of
        None \<Rightarrow> Inl TypeError
      | Some n \<Rightarrow>
        (case int_to_float B n of
           None \<Rightarrow> Inl OverflowError
         | Some x \<Rightarrow> Inr (format_2f B x)))"

definition table_header :: "string list" where
  "table_header = [''Region | Category | Total Cost ($) | Hours'', ''---|---|---|---'']"

text \<open>The narrative, lines 269 to 278, from the top bucket and the three subtotals.
  The top cost is formatted first, then the subtotals in the order of the text.\<close>

definition summary_text ::
  "builtins \<Rightarrow> pyval \<Rightarrow> pyval \<Rightarrow> pyval \<Rightarrow> pyval \<Rightarrow> pyval \<Rightarrow> pyval \<Rightarrow> error + string" where
  "summary_text B top_region top_category top_cost aircraft_total personnel_total equipment_total =
     (case format_money B top_cost of
        Inl e \<Rightarrow> Inl e
      | Inr top_cost_text \<Rightarrow>
     (case format_money B aircraft_total of
        Inl e \<Rightarrow> Inl e
      | Inr aircraft_text \<Rightarrow>
     (case format_money B personnel_total of
        Inl e \<Rightarrow> Inl e
      | Inr personnel_text \<Rightarrow>
     (case format_money B equipment_total of
        Inl e \<Rightarrow> Inl e
      | Inr equipment_text \<Rightarrow>
          Inr (join newline
            [''Here's a summary of the wildfire costs based on the synthetic data:'' @ newline,
             ''**Key Insights:**'',
             ''- **Largest Single Bucket:** '' @ py_str B top_region @ '' '' @ en_dash @ '' '' @
               py_str B top_category @ '' at $'' @ top_cost_text @ ''.'',
             ''- **By Category:** Aircraft ($'' @ aircraft_text @ ''), '' @
               ''Personnel ($'' @ personnel_text @ ''), '' @
               ''Equipment ($'' @ equipment_text @ '').'',
             ''- Aircraft is the dominant cost driver across regions, '' @
               ''with personnel generally higher than equipment.''])))))"

text \<open>Lines 243 to 280 of the source: the table, the narrative, the final text.\<close>

definition render_report :: "builtins \<Rightarrow> pyobj \<Rightarrow> error + string" where
  "render_report B aggregated =
     (case py_iter aggregated of
        Inl e \<Rightarrow> Inl e
      | Inr rows \<Rightarrow>
     (case table_lines B rows table_header of
        Inl e \<Rightarrow> Inl e
      | Inr lines \<Rightarrow>
     (case py_max rows of
        Inl e \<Rightarrow> Inl e
      | Inr top_row \<Rightarrow>
     (case obj_index top_row ''region'' of
        Inl e \<Rightarrow> Inl e
      | Inr top_region \<Rightarrow>
     (case obj_index top_row ''category'' of
        Inl e \<Rightarrow> Inl e
      | Inr top_category \<Rightarrow>
     (case obj_index top_row ''total_cost'' of
        Inl e \<Rightarrow> Inl e
      | Inr top_cost \<Rightarrow>
     (case category_sum B ''aircraft'' rows (IntAcc 0) of
        Inl e \<Rightarrow> Inl e
      | Inr aircraft_total \<Rightarrow>
     (case category_sum B ''personnel'' rows (IntAcc 0) of
        Inl e \<Rightarrow> Inl e
      | Inr personnel_total \<Rightarrow>
     (case category_sum B ''equipment'' rows (IntAcc 0) of
        Inl e \<Rightarrow> Inl e
      | Inr equipment_total \<Rightarrow>
     (case summary_text B top_region top_category top_cost
             aircraft_total personnel_total equipment_total of
        Inl e \<Rightarrow> Inl e
      | Inr summary \<Rightarrow>
          Inr (join newline lines @ newline @ newline @ summary)))))))))))"

definition could_not_parse :: string where
  "could_not_parse = ''Could not parse aggregated cost data.''"

definition no_cost_data :: string where
  "no_cost_data = ''No cost data available.''"

text \<open>
  Lines 227 to 237: a string argument is parsed; \<^verbatim>\<open>json.loads\<close> and the
  \<^verbatim>\<open>len\<close> of the log call are inside the \<^verbatim>\<open>try\<close>, so a failure of either
  returns the diagnostic text.
\<close>

definition parse_argument :: "builtins \<Rightarrow> pyobj \<Rightarrow> string + pyobj" where
  "parse_argument B aggregated =
     (case aggregated of
        Scalar (PStr s) \<Rightarrow>
          (case json_loads B s of
             None \<Rightarrow> Inl could_not_parse
           | Some v \<Rightarrow> (case py_len v of Inl e \<Rightarrow> Inl could_not_parse | Inr n \<Rightarrow> Inr v))
      | _ \<Rightarrow> Inr aggregated)"

definition build_cost_table ::
  "builtins \<Rightarrow> pyobj \<Rightarrow> string \<Rightarrow> store \<Rightarrow> (error + string) \<times> store" where
  "build_cost_table B aggregated session_id st =
     (case parse_argument B aggregated of
        Inl msg \<Rightarrow> (Inr msg, st)
      | Inr agg \<Rightarrow>
          if \<not> py_truthy agg then (Inr no_cost_data, st)
          else (case render_report B agg of
                  Inl e \<Rightarrow> (Inl e, st)
                | Inr final_summary \<Rightarrow>
                    (let (mem, st1) = get_session_memory session_id st
                     in (Inr final_summary,
                         st1(session_id \<mapsto> mem\<lparr> last_summary := Some final_summary \<rparr>)))))"

section \<open>get_last_summary\<close>

definition no_previous_summary :: string where
  "no_previous_summary = ''I don't have a previous summary stored yet in this session.''"

text \<open>\<^verbatim>\<open>if not summary\<close> holds for \<^verbatim>\<open>None\<close> and for the empty string.\<close>

definition get_last_summary :: "string \<Rightarrow> store \<Rightarrow> string \<times> store" where
  "get_last_summary session_id st =
     (let (mem, st1) = get_session_memory session_id st
      in case last_summary mem of
           None \<Rightarrow> (no_previous_summary, st1)
         | Some summary \<Rightarrow>
             if summary = [] then (no_previous_summary, st1) else (summary, st1))"

section \<open>The other writers of the session memory\<close>

definition mock_record :: "string \<Rightarrow> string \<Rightarrow> pyfloat \<Rightarrow> pyfloat \<Rightarrow> row" where
  "mock_record region category cost hours =
     [(''region'', PStr region), (''category'', PStr category),
      (''cost'', PFloat cost), (''hours'', PFloat hours)]"

text \<open>The twelve records of the source; a literal that is not 0.0 is the double
  that the runtime reads it as.\<close>

definition mock_data :: "builtins \<Rightarrow> row list" where
  "mock_data B =
     [mock_record ''South'' ''aircraft'' (float_literal B ''176_870.51'') (float_literal B ''116.9''),
      mock_record ''Central'' ''aircraft'' (float_literal B ''161_923.60'') (float_literal B ''102.7''),
      mock_record ''Northwest'' ''aircraft'' (float_literal B ''154_527.82'') (float_literal B ''94.8''),
      mock_record ''Northeast'' ''aircraft'' (float_literal B ''131_905.83'') (float_literal B ''123.2''),
      mock_record ''Central'' ''personnel'' (float_literal B ''97_266.43'') (Finite 0),
      mock_record ''Northeast'' ''personnel'' (float_literal B ''84_489.65'') (Finite 0),
      mock_record ''Northwest'' ''personnel'' (float_literal B ''76_568.23'') (Finite 0),
      mock_record ''South'' ''personnel'' (float_literal B ''74_011.79'') (Finite 0),
      mock_record ''Central'' ''equipment'' (float_literal B ''66_877.06'') (Finite 0),
      mock_record ''Northeast'' ''equipment'' (float_literal B ''61_460.99'') (Finite 0),
      mock_record ''Northwest'' ''equipment'' (float_literal B ''58_812.48'') (Finite 0),
      mock_record ''South'' ''equipment'' (float_literal B ''49_164.94'') (Finite 0)]"

definition load_mock_wildfire_costs ::
  "builtins \<Rightarrow> int \<Rightarrow> string \<Rightarrow> store \<Rightarrow> row list \<times> store" where
  "load_mock_wildfire_costs B year session_id st =
     (let data = mock_data B;
          (mem, st1) = get_session_memory session_id st
      in (data,
          st1(session_id \<mapsto> mem\<lparr> last_year := Some year, last_raw_records := Some data \<rparr>)))"

text \<open>
  \<^verbatim>\<open>google_search\<close> talks to a web service. What the service answered is an input
  of the model: either one of the diagnostic texts that the function returns without
  touching the session memory (no credentials, a failed request, no items), or the
  formatted result text, which it stores with the query.
\<close>

datatype search_outcome = Diagnostic string | Results string

definition google_search ::
  "search_outcome \<Rightarrow> string \<Rightarrow> string \<Rightarrow> store \<Rightarrow> string \<times> store" where
  "google_search outcome query session_id st =
     (case outcome of
        Diagnostic msg \<Rightarrow> (msg, st)
      | Results result_text \<Rightarrow>
          (let (mem, st1) = get_session_memory session_id st
           in (result_text,
               st1(session_id \<mapsto> mem\<lparr> last_search_query := Some query,
                                         last_search_results := Some result_text \<rparr>))))"

text \<open>The six tools of the agent, as calls, and the session memory after a call.\<close>

datatype tool_call =
    LoadCall int string
  | AggregateCall "row list" string
  | CompactCall "row list" int string
  | RenderCall pyobj string
  | LastSummaryCall string
  | SearchCall search_outcome string string

fun run_call :: "builtins \<Rightarrow> tool_call \<Rightarrow> store \<Rightarrow> store" where
  "run_call B (LoadCall year sid) st = snd (load_mock_wildfire_costs B year sid st)"
| "run_call B (AggregateCall records sid) st = snd (aggregate_costs B records sid st)"
| "run_call B (CompactCall aggregated max_rows sid) st =
     snd (compact_aggregated_costs B aggregated max_rows sid st)"
| "run_call B (RenderCall aggregated sid) st = snd (build_cost_table B aggregated sid st)"
| "run_call B (LastSummaryCall sid) st = snd (get_last_summary sid st)"
| "run_call B (SearchCall outcome query sid) st = snd (google_search outcome query sid st)"

fun run_calls :: "builtins \<Rightarrow> tool_call list \<Rightarrow> store \<Rightarrow> store" where
  "run_calls B [] st = st"
| "run_calls B (c # cs) st = run_calls B cs (run_call B c st)"

fun renders_for :: "string \<Rightarrow> tool_call \<Rightarrow> bool" where
  "renders_for s (RenderCall aggregated sid) = (sid = s)"
| "renders_for s c = False"

section \<open>Notions the properties are stated with\<close>

definition succeeds :: "error + 'a \<Rightarrow> bool" where
  "succeeds x = (case x of Inl e \<Rightarrow> False | Inr v \<Rightarrow> True)"

text \<open>The cost of a record as the aggregation reads it: \<^verbatim>\<open>float(r.get("cost", 0.0))\<close>
  (0.0 when that raises, which \<open>coerces\<close> excludes).\<close>

definition record_cost :: "builtins \<Rightarrow> row \<Rightarrow> pyfloat" where
  "record_cost B r =
     (case py_float B (row_get r ''cost'' (PFloat (Finite 0))) of Inl e \<Rightarrow> Finite 0 | Inr x \<Rightarrow> x)"

text \<open>Both numeric fields of a record coerce to a float (a missing field is 0.0).\<close>

definition coerces :: "builtins \<Rightarrow> row \<Rightarrow> bool" where
  "coerces B r = (succeeds (py_float B (row_get r ''cost'' (PFloat (Finite 0)))) \<and>
                  succeeds (py_float B (row_get r ''hours'' (PFloat (Finite 0)))))"

text \<open>The three exceptions of \<^verbatim>\<open>float\<close>: the spec's error kind InvalidRecordField.\<close>

definition invalid_record_field :: "error \<Rightarrow> bool" where
  "invalid_record_field e = (e = TypeError \<or> e = ValueError \<or> e = OverflowError)"

text \<open>Neither the region nor the category of the record is a NaN.\<close>

definition nan_free_key :: "row \<Rightarrow> bool" where
  "nan_free_key r = (fst (row_key r) \<noteq> HNaN \<and> snd (row_key r) \<noteq> HNaN)"

text \<open>What \<^verbatim>\<open>+=\<close> accumulates from 0.0 over the floats \<open>xs\<close>, in their order.\<close>

definition left_sum :: "builtins \<Rightarrow> pyfloat list \<Rightarrow> pyfloat" where
  "left_sum B xs = foldl (float_add B) (Finite 0) xs"

text \<open>The sum of the values of finite floats, as a real number.\<close>

definition exact_sum :: "pyfloat list \<Rightarrow> real" where
  "exact_sum xs = sum_list (map fin_value xs)"

text \<open>The float in the field \<^verbatim>\<open>total_cost\<close> of a row (0.0 when there is none).\<close>

definition total_cost_field :: "row \<Rightarrow> pyfloat" where
  "total_cost_field r = (case map_of r ''total_cost'' of Some (PFloat x) \<Rightarrow> x | _ \<Rightarrow> Finite 0)"

definition bucket_key :: "bucket \<Rightarrow> hkey \<times> hkey" where
  "bucket_key b = (hash_key (b_region b), hash_key (b_category b))"

definition keyed :: "totals \<Rightarrow> bool" where
  "keyed ts = list_all (\<lambda>(k, b). bucket_key b = k) ts"

text \<open>The running total of the key \<open>k\<close> in \<^verbatim>\<open>totals\<close>; 0.0 when the key has no
  bucket yet.\<close>

definition total_in :: "totals \<Rightarrow> hkey \<times> hkey \<Rightarrow> pyfloat" where
  "total_in ts k = (case map_of ts k of None \<Rightarrow> Finite 0 | Some b \<Rightarrow> b_total_cost b)"

text \<open>The sort key of the compaction, \<^verbatim>\<open>float(x.get("total_cost", 0.0))\<close> (0.0 when
  that raises, which \<open>cost_coerces\<close> excludes).\<close>

definition sort_cost :: "builtins \<Rightarrow> row \<Rightarrow> pyfloat" where
  "sort_cost B r =
     (case py_float B (row_get r ''total_cost'' (PFloat (Finite 0))) of
        Inl e \<Rightarrow> Finite 0 | Inr x \<Rightarrow> x)"

definition cost_coerces :: "builtins \<Rightarrow> row \<Rightarrow> bool" where
  "cost_coerces B r = succeeds (py_float B (row_get r ''total_cost'' (PFloat (Finite 0))))"

text \<open>The rows in the order of the defensive sort of the compaction.\<close>

definition ranked :: "builtins \<Rightarrow> row list \<Rightarrow> row list" where
  "ranked B A = sorted_desc (map (sort_cost B) A) A"

text \<open>A rank that orders the floats other than NaN from the largest to the
  smallest, and the rule that no item is followed by one of greater key.\<close>

definition desc_rank :: "pyfloat \<Rightarrow> int \<times> real" where
  "desc_rank a = (- tier a, - fin_value a)"

definition descending :: "(pyfloat \<times> 'a) list \<Rightarrow> bool" where
  "descending ps = successively (\<lambda>p q. \<not> float_lt (fst p) (fst q)) ps"

text \<open>The stored report of a session; \<open>None\<close> for a session without memory.\<close>

definition summary_of :: "store \<Rightarrow> string \<Rightarrow> string option" where
  "summary_of st s = (case st s of None \<Rightarrow> None | Some mem \<Rightarrow> last_summary mem)"

text \<open>The memory of a session as a tool finds it: created on first access.\<close>

definition memory_of :: "store \<Rightarrow> string \<Rightarrow> session_memory" where
  "memory_of st s = (case st s of None \<Rightarrow> fresh_memory | Some mem \<Rightarrow> mem)"




text \<open>
  One runtime, to evaluate the examples with. Where an example depends on it, it
  agrees with CPython: a sum of finite doubles that needs no rounding is exact, and
  \<open>2\<^bsup>53\<^esup> + 1\<close>, which lies halfway between two doubles, rounds to the even one,
  \<open>2\<^bsup>53\<^esup>\<close>, as a sum and as the conversion of an int; \<^verbatim>\<open>sum\<close> adds from left to
  right, which is exact on the sums of the examples. Its other values (every float
  literal, every other int beyond \<open>2\<^bsup>53\<^esup>\<close>, every text but the few it formats or
  parses) are arbitrary, and no example depends on them.
\<close>

definition sample_add :: "pyfloat \<Rightarrow> pyfloat \<Rightarrow> pyfloat" where
  "sample_add a b =
     (case (a, b) of
        (Finite x, Finite y) \<Rightarrow>
          if x + y = 9007199254740993 then Finite 9007199254740992 else Finite (x + y)
      | _ \<Rightarrow> NaN)"

definition sample_num :: "pyval \<Rightarrow> pyfloat" where
  "sample_num v = (case num_val v of None \<Rightarrow> NaN | Some x \<Rightarrow> x)"

definition sample_runtime :: builtins where
  "sample_runtime =
     \<lparr> float_of_str = (\<lambda>s. if s = ''12.5'' then Some (Finite 12.5) else None),
       big_int_to_float =
         (\<lambda>i. if i = 9007199254740993 then Some (Finite 9007199254740992) else None),
       float_literal = (\<lambda>s. Finite 0),
       float_add = sample_add,
       float_sum = (\<lambda>vs. foldl sample_add (Finite 0) (map sample_num vs)),
       json_loads = (\<lambda>s. if s = ''[]'' then Some (ListObj []) else None),
       format_2f = (\<lambda>x. if x = Finite 150 then ''150.00'' else if x = Finite 30 then ''30.00'' else ''0.00''),
       format_1f = (\<lambda>x. if x = Finite 7 then ''7.0'' else ''0.0''),
       str_of_int = (\<lambda>i. if i = 1 then ''1'' else ''0''),
       str_of_float = (\<lambda>x. if x = Finite 1 then ''1.0'' else ''0.0'') \<rparr>"

text \<open>The records and rows of the end-to-end scenario of the specification.\<close>

definition scenario_records :: "row list" where
  "scenario_records =
     [mock_record ''South'' ''aircraft'' (Finite 100) (Finite 5),
      mock_record ''South'' ''aircraft'' (Finite 50) (Finite 2),
      mock_record ''North'' ''personnel'' (Finite 30) (Finite 0)]"

definition agg_row :: "string \<Rightarrow> string \<Rightarrow> real \<Rightarrow> real \<Rightarrow> row" where
  "agg_row region category total_cost hours =
     [(''region'', PStr region), (''category'', PStr category),
      (''total_cost'', PFloat (Finite total_cost)), (''hours'', PFloat (Finite hours))]"

definition scenario_table :: pyobj where
  "scenario_table = ListObj [DictObj (agg_row ''South'' ''aircraft'' 150 7)]"

text \<open>Four records whose totals round: the costs 1.0, \<open>2\<^bsup>53\<^esup>\<close>, 1.0 and 1.0 in the
  buckets A, B, A and B.\<close>

definition rounding_records :: "row list" where
  "rounding_records =
     [mock_record ''A'' ''aircraft'' (Finite 1) (Finite 0),
      mock_record ''B'' ''aircraft'' (Finite 9007199254740992) (Finite 0),
      mock_record ''A'' ''aircraft'' (Finite 1) (Finite 0),
      mock_record ''B'' ''aircraft'' (Finite 1) (Finite 0)]"

text \<open>Two rows whose int totals \<open>2\<^bsup>53\<^esup>\<close> and \<open>2\<^bsup>53\<^esup> + 1\<close> have the same float.\<close>

definition int_row :: "string \<Rightarrow> int \<Rightarrow> row" where
  "int_row region total_cost =
     [(''region'', PStr region), (''category'', PStr ''aircraft''), (''total_cost'', PInt total_cost)]"

section \<open>Properties of the sort\<close>

lemma mset_insert_desc: "mset (insert_desc x ys) = add_mset x (mset ys)"
  by (induction ys) auto

lemma mset_sort_desc: "mset (sort_desc ps) = mset ps"
  by (induction ps) (auto simp: mset_insert_desc)

lemma set_sort_desc: "set (sort_desc ps) = set ps"
  using mset_sort_desc[of ps] by (metis set_mset_mset)

lemma length_sort_desc: "length (sort_desc ps) = length ps"
  using mset_sort_desc[of ps] by (metis size_mset)

lemma mset_sorted_desc: "length ks = length xs \<Longrightarrow> mset (sorted_desc ks xs) = mset xs"
proof -
  assume l: "length ks = length xs"
  have "mset (map snd (sort_desc (zip ks xs))) = image_mset snd (mset (sort_desc (zip ks xs)))"
    by simp
  also have "\<dots> = mset (map snd (zip ks xs))" by (simp add: mset_sort_desc)
  also have "\<dots> = mset xs" using l by simp
  finally show ?thesis by (simp add: sorted_desc_def)
qed

lemma float_lt_asym: "float_lt a b \<Longrightarrow> \<not> float_lt b a"
  by (auto simp: float_lt_def)

lemma descending_simps:
  "descending []" "descending [p]"
  "descending (p # q # ps) = (\<not> float_lt (fst p) (fst q) \<and> descending (q # ps))"
  by (simp_all add: descending_def)

lemma descending_tl: "descending (p # ps) \<Longrightarrow> descending ps"
  by (cases ps) (simp_all add: descending_simps)

lemma descending_insert: "descending ys \<Longrightarrow> descending (insert_desc x ys)"
proof (induction ys)
  case Nil
  then show ?case by (simp add: descending_def)
next
  case (Cons y ys)
  show ?case
  proof (cases "float_lt (fst x) (fst y)")
    case False
    then show ?thesis using Cons.prems by (simp add: descending_def)
  next
    case True
    have d: "descending ys" using Cons.prems by (rule descending_tl)
    have i: "descending (insert_desc x ys)" using Cons.IH[OF d] .
    show ?thesis
    proof (cases ys)
      case Nil
      then show ?thesis using True float_lt_asym[OF True] by (simp add: descending_def)
    next
      case (Cons z zs)
      then have yz: "\<not> float_lt (fst y) (fst z)" using Cons.prems by (simp add: descending_def)
      show ?thesis using True i yz float_lt_asym[OF True] Cons
        by (auto simp: descending_def)
    qed
  qed
qed

lemma descending_sort_desc: "descending (sort_desc ps)"
  by (induction ps) (simp_all add: descending_insert, simp add: descending_def)

lemma sort_desc_id: "descending ps \<Longrightarrow> sort_desc ps = ps"
proof (induction ps)
  case Nil
  then show ?case by simp
next
  case (Cons p ps)
  from Cons.prems have "descending ps" by (rule descending_tl)
  then have "sort_desc ps = ps" by (rule Cons.IH)
  then show ?case using Cons.prems by (cases ps) (simp_all add: descending_simps)
qed

lemma descending_take: "descending ps \<Longrightarrow> descending (take n ps)"
proof (induction ps arbitrary: n rule: induct_list012)
  case 1
  then show ?case by simp
next
  case (2 p)
  then show ?case by (cases n) (simp_all add: descending_simps)
next
  case (3 p q ps)
  show ?case
  proof (cases n)
    case 0
    then show ?thesis by (simp add: descending_simps)
  next
    case (Suc m)
    have t: "descending (take m (q # ps))" using 3 by (simp add: descending_simps)
    show ?thesis
    proof (cases m)
      case 0
      then show ?thesis using Suc by (simp add: descending_simps)
    next
      case (Suc m')
      then show ?thesis using \<open>n = Suc m\<close> t 3(3) by (simp add: descending_simps)
    qed
  qed
qed

section \<open>Properties of aggregate_costs\<close>

lemma map_fst_modify: "map fst (modify k f ts) = map fst ts"
  by (induction ts) (auto simp: modify_def)

lemma modify_Cons:
  "modify k f ((k', b) # ts) = (if k' = k then (k', f b) else (k', b)) # modify k f ts"
  by (simp add: modify_def)

lemma map_of_modify:
  "map_of (modify k f ts) k' = (if k' = k then map_option f (map_of ts k) else map_of ts k')"
proof (induction ts)
  case Nil
  then show ?case by (simp add: modify_def)
next
  case (Cons p ts)
  obtain k0 b where p: "p = (k0, b)" by (cases p)
  show ?case using Cons by (auto simp: p modify_Cons)
qed

lemma total_in_modify_cost:
  "k \<in> set (map fst ts) \<Longrightarrow>
   total_in (modify k (\<lambda>b. b\<lparr> b_total_cost := float_add B (b_total_cost b) c \<rparr>) ts) k' =
     (if k' = k then float_add B (total_in ts k) c else total_in ts k')"
proof -
  assume "k \<in> set (map fst ts)"
  then obtain b where "map_of ts k = Some b"
    by (metis map_of_eq_None_iff not_Some_eq set_map)
  then show ?thesis by (simp add: total_in_def map_of_modify)
qed

lemma total_in_modify_hours:
  "total_in (modify k (\<lambda>b. b\<lparr> b_hours := h b \<rparr>) ts) k' = total_in ts k'"
  by (simp add: total_in_def map_of_modify split: option.splits)

lemma total_in_new:
  "k \<notin> set (map fst ts) \<Longrightarrow>
   total_in (ts @ [(k, \<lparr> b_region = rg, b_category = ct, b_total_cost = Finite 0, b_hours = h \<rparr>)]) k' =
     total_in ts k'"
proof -
  assume "k \<notin> set (map fst ts)"
  then have "map_of ts k = None" by (simp add: map_of_eq_None_iff)
  then show ?thesis by (auto simp: total_in_def map_add_def split: option.splits)
qed

lemma keyed_modify:
  "keyed ts \<Longrightarrow> (\<And>b. bucket_key (f b) = bucket_key b) \<Longrightarrow> keyed (modify k f ts)"
  by (induction ts) (auto simp: modify_def keyed_def split: if_splits)

lemma agg_loop_inv:
  "agg_loop B rs ts = Inr ts' \<Longrightarrow> distinct (map fst ts) \<Longrightarrow> keyed ts \<Longrightarrow>
     distinct (map fst ts') \<and> keyed ts' \<and>
     set (map fst ts') = set (map fst ts) \<union> set (map row_key rs) \<and>
     (\<forall>k. total_in ts' k =
        foldl (float_add B) (total_in ts k) (map (record_cost B) (filter (\<lambda>r. row_key r = k) rs)))"
proof (induction rs arbitrary: ts)
  case Nil
  then show ?case by simp
next
  case (Cons r rs)
  obtain c where c: "py_float B (row_get r ''cost'' (PFloat (Finite 0))) = Inr c"
    using Cons.prems(1) by (auto simp: Let_def split: sum.splits)
  obtain h where h: "py_float B (row_get r ''hours'' (PFloat (Finite 0))) = Inr h"
    using Cons.prems(1) c by (auto simp: Let_def split: sum.splits)
  define key where "key = row_key r"
  define ts1 where "ts1 = (if key \<notin> set (map fst ts)
       then ts @ [(key, \<lparr> b_region = row_get r ''region'' PNone, b_category = row_get r ''category'' PNone,
                            b_total_cost = Finite 0, b_hours = Finite 0 \<rparr>)] else ts)"
  define ts2 where "ts2 = modify key (\<lambda>b. b\<lparr> b_total_cost := float_add B (b_total_cost b) c \<rparr>) ts1"
  define ts3 where "ts3 = modify key (\<lambda>b. b\<lparr> b_hours := float_add B (b_hours b) h \<rparr>) ts2"
  have run: "agg_loop B rs ts3 = Inr ts'"
    using Cons.prems(1) c h unfolding ts3_def ts2_def ts1_def key_def row_key_def
    by (simp add: Let_def split del: if_split)
  have d1: "distinct (map fst ts1)" and k1: "key \<in> set (map fst ts1)"
    and s1: "set (map fst ts1) = insert key (set (map fst ts))"
    and ky1: "keyed ts1"
    using Cons.prems(2,3) by (auto simp: ts1_def keyed_def bucket_key_def key_def row_key_def)
  have t1: "total_in ts1 k = total_in ts k" for k
    unfolding ts1_def using total_in_new[of key ts] by simp
  have t3: "total_in ts3 k = (if k = key then float_add B (total_in ts key) c else total_in ts k)" for k
    unfolding ts3_def ts2_def using total_in_modify_cost[OF k1, of B c k]
    by (simp add: total_in_modify_hours t1)
  have d3: "distinct (map fst ts3)" using d1 by (simp add: ts3_def ts2_def map_fst_modify)
  have ky3: "keyed ts3" unfolding ts3_def ts2_def
    by (intro keyed_modify ky1) (simp_all add: bucket_key_def)
  have s3: "set (map fst ts3) = insert key (set (map fst ts))"
    using s1 by (simp add: ts3_def ts2_def map_fst_modify)
  have rc: "record_cost B r = c" by (simp add: record_cost_def c)
  from Cons.IH[OF run d3 ky3, unfolded s3] show ?case
    by (auto simp: rc key_def t3)
qed

lemma agg_loop_total:
  "list_all (coerces B) rs \<Longrightarrow> \<exists>ts'. agg_loop B rs ts = Inr ts'"
proof (induction rs arbitrary: ts)
  case Nil
  then show ?case by simp
next
  case (Cons r rs)
  then obtain c h where "py_float B (row_get r ''cost'' (PFloat (Finite 0))) = Inr c"
    "py_float B (row_get r ''hours'' (PFloat (Finite 0))) = Inr h"
    by (auto simp: coerces_def succeeds_def split: sum.splits)
  then show ?case using Cons by (simp add: Let_def split del: if_split)
qed

lemma row_key_row_of_bucket: "row_key (row_of_bucket b) = bucket_key b"
  by (simp add: row_key_def row_of_bucket_def bucket_key_def row_get_def)

lemma keyed_map_fst: "keyed ts \<Longrightarrow> map bucket_key (map snd ts) = map fst ts"
  by (induction ts) (auto simp: keyed_def)

lemma total_in_bucket:
  "distinct (map fst ts) \<Longrightarrow> keyed ts \<Longrightarrow> b \<in> set (map snd ts) \<Longrightarrow>
   total_in ts (bucket_key b) = b_total_cost b"
proof -
  assume d: "distinct (map fst ts)" and k: "keyed ts" and b: "b \<in> set (map snd ts)"
  then obtain k0 where in_ts: "(k0, b) \<in> set ts" by auto
  then have "bucket_key b = k0" using k by (auto simp: keyed_def list_all_iff)
  then have "map_of ts (bucket_key b) = Some b" using d in_ts by simp
  then show ?thesis by (simp add: total_in_def)
qed

text \<open>
  Claim C1, as amended. For every finite sequence of records whose cost and hours
  coerce to a float and whose region and category are not NaN,
  \<open>aggregate_costs\<close> returns rows; the rows have pairwise distinct
  (region, category) keys, the keys are exactly the keys present in the records (one
  row per distinct pair), and the field \<^verbatim>\<open>total_cost\<close> of every row is the float
  that \<^verbatim>\<open>+=\<close> accumulates from 0.0, in the order of the records, over the costs of
  the records of that pair, a missing cost counting as 0.0. Every addition rounds, so
  the totals agree with the sum of the costs only up to rounding.
\<close>

theorem aggregate_one_row_per_pair:
  assumes "list_all (coerces B) R" and "list_all nan_free_key R"
  shows "\<exists>out. fst (aggregate_costs B R s st) = Inr out \<and>
           distinct (map row_key out) \<and>
           set (map row_key out) = set (map row_key R) \<and>
           list_all (\<lambda>row. map_of row ''total_cost'' =
                 Some (PFloat (left_sum B (map (record_cost B)
                                  (filter (\<lambda>r. row_key r = row_key row) R))))) out"
proof -
  obtain ts where ts: "agg_loop B R [] = Inr ts"
    using agg_loop_total[OF assms(1)] by blast
  have e: "distinct (map fst ([] :: totals))" "keyed []" "\<And>k. total_in [] k = Finite 0"
    by (simp_all add: keyed_def total_in_def)
  from agg_loop_inv[OF ts e(1,2)]
  have inv: "distinct (map fst ts)" "keyed ts" "set (map fst ts) = set (map row_key R)"
    "\<And>k. total_in ts k =
        foldl (float_add B) (Finite 0) (map (record_cost B) (filter (\<lambda>r. row_key r = k) R))"
    unfolding e(3) by (simp_all del: split_paired_All)
  define bs where "bs = sorted_desc (map (\<lambda>p. b_total_cost (snd p)) ts) (map snd ts)"
  define out where "out = map row_of_bucket bs"
  have res: "fst (aggregate_costs B R s st) = Inr out"
    by (simp add: aggregate_costs_def ts out_def bs_def Let_def split: prod.splits)
  have m: "mset bs = mset (map snd ts)" unfolding bs_def by (rule mset_sorted_desc) simp
  have keys: "map row_key out = map bucket_key bs"
    by (simp add: out_def row_key_row_of_bucket comp_def)
  have mk: "mset (map bucket_key bs) = mset (map fst ts)"
    using m keyed_map_fst[OF inv(2)] by (metis mset_map)
  have d: "distinct (map row_key out)"
    unfolding keys using mk inv(1) by (metis mset_eq_imp_distinct_iff)
  have s: "set (map row_key out) = set (map row_key R)"
    unfolding keys using mk inv(3) by (metis mset_eq_setD)
  have "map_of (row_of_bucket b) ''total_cost'' =
      Some (PFloat (left_sum B (map (record_cost B)
                       (filter (\<lambda>r. row_key r = row_key (row_of_bucket b)) R))))"
    if "b \<in> set bs" for b
  proof -
    from that have "b \<in> set (map snd ts)" using m by (metis mset_eq_setD)
    then have "total_in ts (bucket_key b) = b_total_cost b"
      using total_in_bucket[OF inv(1,2)] by blast
    then show ?thesis
      by (simp add: row_key_row_of_bucket left_sum_def inv(4)[symmetric]) (simp add: row_of_bucket_def)
  qed
  then have fl: "list_all (\<lambda>row. map_of row ''total_cost'' =
                 Some (PFloat (left_sum B (map (record_cost B)
                                  (filter (\<lambda>r. row_key r = row_key row) R))))) out"
    by (simp add: out_def list_all_iff)
  from res d s fl show ?thesis by blast
qed

text \<open>The first step of the end-to-end scenario of the specification.\<close>

lemma aggregate_scenario:
  "fst (aggregate_costs sample_runtime scenario_records ''default'' Map.empty) =
     Inr [agg_row ''South'' ''aircraft'' 150 7, agg_row ''North'' ''personnel'' 30 0]"
  by (simp add: aggregate_costs_def scenario_records_def mock_record_def agg_row_def row_get_def
      modify_def row_of_bucket_def get_session_memory_def Let_def sorted_desc_def float_lt_def
      sample_runtime_def sample_add_def)

text \<open>
  The claim C1 as stated, that the totals of the rows add up to the sum of the costs,
  fails: the bucket B holds \<open>2\<^bsup>53\<^esup>\<close> after \<open>2\<^bsup>53\<^esup> + 1.0\<close>, so the rows hold
  \<open>2\<^bsup>53\<^esup>\<close> and 2.0 while the costs are 1.0, \<open>2\<^bsup>53\<^esup>\<close>, 1.0 and 1.0. The two sums
  differ as real numbers, and they differ when each is added up from left to right
  in floats.
\<close>

theorem aggregate_totals_round:
  "list_all (coerces sample_runtime) rounding_records \<and>
   list_all nan_free_key rounding_records \<and>
   fst (aggregate_costs sample_runtime rounding_records ''default'' Map.empty) =
     Inr [agg_row ''B'' ''aircraft'' 9007199254740992 0, agg_row ''A'' ''aircraft'' 2 0] \<and>
   exact_sum (map total_cost_field
       [agg_row ''B'' ''aircraft'' 9007199254740992 0, agg_row ''A'' ''aircraft'' 2 0]) \<noteq>
     exact_sum (map (record_cost sample_runtime) rounding_records) \<and>
   left_sum sample_runtime (map total_cost_field
       [agg_row ''B'' ''aircraft'' 9007199254740992 0, agg_row ''A'' ''aircraft'' 2 0]) \<noteq>
     left_sum sample_runtime (map (record_cost sample_runtime) rounding_records)"
  by (simp add: aggregate_costs_def rounding_records_def mock_record_def agg_row_def row_get_def
      modify_def row_of_bucket_def get_session_memory_def Let_def sorted_desc_def float_lt_def
      sample_runtime_def sample_add_def coerces_def succeeds_def nan_free_key_def row_key_def
      exact_sum_def left_sum_def total_cost_field_def record_cost_def)

theorem aggregate_one_row_per_pair_witness:
  "list_all (coerces sample_runtime) rounding_records \<and>
   list_all nan_free_key rounding_records \<and>
   (\<exists>out. fst (aggregate_costs sample_runtime rounding_records ''default'' Map.empty) = Inr out \<and>
           distinct (map row_key out) \<and>
           set (map row_key out) = set (map row_key rounding_records) \<and>
           list_all (\<lambda>row. map_of row ''total_cost'' =
                 Some (PFloat (left_sum sample_runtime (map (record_cost sample_runtime)
                                  (filter (\<lambda>r. row_key r = row_key row) rounding_records))))) out)"
proof -
  have h: "list_all (coerces sample_runtime) rounding_records"
    by (simp add: coerces_def succeeds_def rounding_records_def mock_record_def row_get_def)
  have n: "list_all nan_free_key rounding_records"
    by (simp add: nan_free_key_def row_key_def rounding_records_def mock_record_def row_get_def)
  from aggregate_one_row_per_pair[OF h n, of "''default''" Map.empty] h n show ?thesis by blast
qed

lemma py_float_error: "py_float B v = Inl e \<Longrightarrow> invalid_record_field e"
  by (cases v) (auto simp: invalid_record_field_def split: option.splits)

lemma agg_loop_fails:
  "\<not> list_all (coerces B) rs \<Longrightarrow> \<exists>e. agg_loop B rs ts = Inl e \<and> invalid_record_field e"
proof (induction rs arbitrary: ts)
  case Nil
  then show ?case by simp
next
  case (Cons r rs)
  show ?case
  proof (cases "py_float B (row_get r ''cost'' (PFloat (Finite 0)))")
    case (Inl e)
    then show ?thesis using py_float_error[OF Inl] by (simp add: Let_def)
  next
    case c: (Inr c)
    show ?thesis
    proof (cases "py_float B (row_get r ''hours'' (PFloat (Finite 0)))")
      case (Inl e)
      then show ?thesis using c py_float_error[OF Inl] by (simp add: Let_def)
    next
      case h: (Inr h)
      then have "coerces B r" using c by (simp add: coerces_def succeeds_def)
      then have "\<not> list_all (coerces B) rs" using Cons.prems by simp
      from Cons.IH[OF this] show ?thesis using c h by (simp add: Let_def split del: if_split)
    qed
  qed
qed

text \<open>
  Claim C5. \<open>aggregate_costs\<close> returns rows whenever the cost and hours of every
  record coerce to a float (a missing field is 0.0). When some record has a cost or
  hours that does not coerce, the call raises the \<^verbatim>\<open>TypeError\<close>, \<^verbatim>\<open>ValueError\<close> or
  \<^verbatim>\<open>OverflowError\<close> of \<^verbatim>\<open>float\<close> to its caller (the error kind
  InvalidRecordField) and leaves the session memory as it was: the field is not read
  as zero.
\<close>

theorem aggregate_fails_exactly_on_bad_field:
  "(list_all (coerces B) R \<longrightarrow> succeeds (fst (aggregate_costs B R s st))) \<and>
   (\<not> list_all (coerces B) R \<longrightarrow>
      (\<exists>e. aggregate_costs B R s st = (Inl e, st) \<and> invalid_record_field e))"
proof (intro conjI impI)
  assume "list_all (coerces B) R"
  then obtain ts where "agg_loop B R [] = Inr ts" using agg_loop_total by blast
  then show "succeeds (fst (aggregate_costs B R s st))"
    by (simp add: aggregate_costs_def succeeds_def Let_def split: prod.splits)
next
  assume "\<not> list_all (coerces B) R"
  then obtain e where "agg_loop B R [] = Inl e" "invalid_record_field e"
    using agg_loop_fails by blast
  then show "\<exists>e. aggregate_costs B R s st = (Inl e, st) \<and> invalid_record_field e"
    by (simp add: aggregate_costs_def)
qed

theorem aggregate_fails_exactly_on_bad_field_witness:
  "succeeds (fst (aggregate_costs sample_runtime scenario_records ''default'' Map.empty)) \<and>
   (\<exists>e. aggregate_costs sample_runtime [[(''region'', PStr ''South''), (''cost'', PStr ''n/a'')]]
          ''default'' Map.empty = (Inl e, Map.empty) \<and> invalid_record_field e)"
proof -
  have good: "list_all (coerces sample_runtime) scenario_records"
    by (simp add: coerces_def succeeds_def scenario_records_def mock_record_def row_get_def)
  have bad: "\<not> list_all (coerces sample_runtime) [[(''region'', PStr ''South''), (''cost'', PStr ''n/a'')]]"
    by (simp add: coerces_def succeeds_def row_get_def sample_runtime_def)
  from aggregate_fails_exactly_on_bad_field[of sample_runtime scenario_records "''default''" Map.empty]
    aggregate_fails_exactly_on_bad_field[of sample_runtime
      "[[(''region'', PStr ''South''), (''cost'', PStr ''n/a'')]]" "''default''" Map.empty]
    good bad
  show ?thesis by blast
qed

lemma aggregate_bad_field_example:
  "aggregate_costs sample_runtime [[(''region'', PStr ''South''), (''cost'', PStr ''n/a'')]]
          ''default'' Map.empty = (Inl ValueError, Map.empty)"
  by (simp add: aggregate_costs_def row_get_def sample_runtime_def)

text \<open>An int cost that the runtime cannot convert raises \<^verbatim>\<open>OverflowError\<close>.\<close>

lemma aggregate_overflow_example:
  "big_int_to_float B (2 ^ 1024) = None \<Longrightarrow>
   aggregate_costs B [[(''region'', PStr ''South''), (''cost'', PInt (2 ^ 1024))]] s st =
     (Inl OverflowError, st)"
  by (simp add: aggregate_costs_def row_get_def int_to_float_def)

section \<open>Properties of compact_aggregated_costs\<close>

lemma key_list_coerces:
  "list_all (cost_coerces B) A \<Longrightarrow> key_list B A = Inr (map (sort_cost B) A)"
  by (induction A) (auto simp: cost_coerces_def sort_cost_def succeeds_def split: sum.splits)

lemma key_list_Inr:
  "key_list B A = Inr ks \<Longrightarrow> list_all (cost_coerces B) A"
  by (induction A arbitrary: ks) (auto simp: cost_coerces_def succeeds_def split: sum.splits)

lemma compact_ranked:
  assumes "list_all (cost_coerces B) A"
  shows "fst (compact_aggregated_costs B A k s st) = Inr (slice_to k (ranked B A))"
  by (simp add: compact_aggregated_costs_def key_list_coerces[OF assms] ranked_def Let_def
      split: prod.splits)

lemma compact_Inr:
  assumes "fst (compact_aggregated_costs B A k s st) = Inr out"
  shows "list_all (cost_coerces B) A \<and> out = slice_to k (ranked B A)"
proof -
  obtain ks where ks: "key_list B A = Inr ks"
    using assms by (cases "key_list B A") (simp_all add: compact_aggregated_costs_def)
  then have c: "list_all (cost_coerces B) A" by (rule key_list_Inr)
  from compact_ranked[OF c, of k s st] assms c show ?thesis by simp
qed

lemma zip_map_self: "zip (map f xs) xs = map (\<lambda>x. (f x, x)) xs"
  by (induction xs) auto

lemma float_lt_rank:
  "a \<noteq> NaN \<Longrightarrow> b \<noteq> NaN \<Longrightarrow> float_lt a b \<longleftrightarrow> desc_rank b < desc_rank a"
  by (auto simp: float_lt_def desc_rank_def less_prod_def)

lemma float_eq_rank:
  "a \<noteq> NaN \<Longrightarrow> b \<noteq> NaN \<Longrightarrow> float_eq a b \<longleftrightarrow> desc_rank a = desc_rank b"
  by (auto simp: float_eq_def desc_rank_def)

lemma insert_desc_insort:
  "fst x \<noteq> NaN \<Longrightarrow> list_all (\<lambda>p. fst p \<noteq> NaN) ys \<Longrightarrow>
   insert_desc x ys = insort_key (\<lambda>p. desc_rank (fst p)) x ys"
  by (induction ys) (auto simp: float_lt_rank)

lemma sort_desc_sort_key:
  "list_all (\<lambda>p. fst p \<noteq> NaN) ps \<Longrightarrow> sort_desc ps = sort_key (\<lambda>p. desc_rank (fst p)) ps"
proof (induction ps)
  case Nil
  then show ?case by simp
next
  case (Cons p ps)
  then have ih: "sort_desc ps = sort_key (\<lambda>p. desc_rank (fst p)) ps" by simp
  have "list_all (\<lambda>p. fst p \<noteq> NaN) (sort_key (\<lambda>p. desc_rank (fst p)) ps)"
    using Cons.prems by (simp add: list_all_iff)
  then show ?case using Cons.prems by (simp add: ih insert_desc_insort)
qed

lemma insort_key_map:
  "insort_key g (h x) (map h ys) = map h (insort_key (\<lambda>y. g (h y)) x ys)"
  by (induction ys) auto

lemma sort_key_map:
  "sort_key g (map h xs) = map h (sort_key (\<lambda>y. g (h y)) xs)"
  by (induction xs) (auto simp: insort_key_map)

lemma ranked_sort_key:
  assumes "list_all (\<lambda>r. sort_cost B r \<noteq> NaN) A"
  shows "ranked B A = sort_key (\<lambda>r. desc_rank (sort_cost B r)) A"
proof -
  have "list_all (\<lambda>p. fst p \<noteq> NaN) (map (\<lambda>r. (sort_cost B r, r)) A)"
    using assms by (simp add: list_all_iff)
  then show ?thesis
    by (simp add: ranked_def sorted_desc_def zip_map_self sort_desc_sort_key sort_key_map comp_def)
qed

text \<open>
  Claim C2, as amended. For rows \<open>A\<close> whose sort key \<^verbatim>\<open>float(total_cost)\<close> exists and
  is not NaN, and \<open>0 \<le> k\<close>, \<open>compact_aggregated_costs\<close> with \<open>max_rows = k\<close>
  returns \<open>min k (length A)\<close> rows of \<open>A\<close>; no returned row is followed by a row of
  greater key; rows of equal key keep their order in \<open>A\<close> (for every float, the
  returned rows with that key are an initial segment of the rows of \<open>A\<close> with that
  key); and no row left out has a greater key than a returned row. The order is that
  of the float keys, not of the values stored in \<^verbatim>\<open>total_cost\<close>.
\<close>

theorem compact_top_rows:
  assumes "0 \<le> k" and "list_all (cost_coerces B) A"
    and "list_all (\<lambda>r. sort_cost B r \<noteq> NaN) A"
  shows "\<exists>out. fst (compact_aggregated_costs B A k s st) = Inr out \<and>
           length out = min (nat k) (length A) \<and>
           sorted_wrt (\<lambda>a b. \<not> float_lt (sort_cost B a) (sort_cost B b)) out \<and>
           (\<forall>c. prefix (filter (\<lambda>r. float_eq (sort_cost B r) c) out)
                       (filter (\<lambda>r. float_eq (sort_cost B r) c) A)) \<and>
           mset out \<subseteq># mset A \<and>
           (\<forall>r \<in> set out. \<forall>d \<in># mset A - mset out.
               \<not> float_lt (sort_cost B r) (sort_cost B d))"
proof -
  let ?h = "\<lambda>r. desc_rank (sort_cost B r)"
  define S where "S = ranked B A"
  define out where "out = take (nat k) S"
  have S: "S = sort_key ?h A" unfolding S_def by (rule ranked_sort_key[OF assms(3)])
  have nn: "sort_cost B r \<noteq> NaN" if "r \<in> set S" for r
    using that assms(3) by (simp add: S list_all_iff)
  have res: "fst (compact_aggregated_costs B A k s st) = Inr out"
    using compact_ranked[OF assms(2)] assms(1) by (simp add: slice_to_def out_def S_def)
  have len: "length out = min (nat k) (length A)"
    by (simp add: out_def S)
  have "sorted (map ?h S)" unfolding S by (rule sorted_sort_key)
  then have "sorted_wrt (\<lambda>a b. ?h a \<le> ?h b) S" by (simp add: sorted_map)
  then have sS: "sorted_wrt (\<lambda>a b. \<not> float_lt (sort_cost B a) (sort_cost B b)) S"
    by (rule sorted_wrt_mono_rel[rotated]) (simp add: float_lt_rank nn not_less)
  then have srt: "sorted_wrt (\<lambda>a b. \<not> float_lt (sort_cost B a) (sort_cost B b)) out"
    unfolding out_def by (rule sorted_wrt_take)
  have stab: "prefix (filter (\<lambda>r. float_eq (sort_cost B r) c) out)
                     (filter (\<lambda>r. float_eq (sort_cost B r) c) A)" for c
  proof (cases "c = NaN")
    case True
    then show ?thesis by (simp add: float_eq_def)
  next
    case False
    have "filter (\<lambda>r. float_eq (sort_cost B r) c) S = filter (\<lambda>r. ?h r = desc_rank c) S"
      by (rule filter_cong) (simp_all add: float_eq_rank nn False)
    also have "\<dots> = filter (\<lambda>r. ?h r = desc_rank c) A"
      unfolding S by (rule sort_key_stable)
    also have "\<dots> = filter (\<lambda>r. float_eq (sort_cost B r) c) A"
      using assms(3) by (intro filter_cong) (simp_all add: float_eq_rank False list_all_iff)
    finally have e: "filter (\<lambda>r. float_eq (sort_cost B r) c) S =
        filter (\<lambda>r. float_eq (sort_cost B r) c) A" .
    have "prefix (filter (\<lambda>r. float_eq (sort_cost B r) c) out)
                 (filter (\<lambda>r. float_eq (sort_cost B r) c) S)"
      unfolding out_def by (intro filter_mono_prefix take_is_prefix)
    then show ?thesis by (simp add: e)
  qed
  have split: "mset A = mset out + mset (drop (nat k) S)"
  proof -
    have "mset A = mset S" by (simp add: S)
    also have "\<dots> = mset (take (nat k) S) + mset (drop (nat k) S)"
      by (metis append_take_drop_id mset_append)
    finally show ?thesis by (simp only: out_def)
  qed
  have sub: "mset out \<subseteq># mset A" by (simp add: split)
  have rest: "mset A - mset out = mset (drop (nat k) S)" by (simp add: split)
  have "sorted_wrt (\<lambda>a b. \<not> float_lt (sort_cost B a) (sort_cost B b))
          (take (nat k) S @ drop (nat k) S)"
    using sS by simp
  then have "\<forall>r \<in> set (take (nat k) S). \<forall>d \<in> set (drop (nat k) S).
      \<not> float_lt (sort_cost B r) (sort_cost B d)"
    unfolding sorted_wrt_append by blast
  then have ge: "\<forall>r \<in> set out. \<forall>d \<in># mset A - mset out.
      \<not> float_lt (sort_cost B r) (sort_cost B d)"
    unfolding rest by (simp add: out_def)
  from res len srt stab sub ge show ?thesis by blast
qed

text \<open>
  The claim C2 as stated, that every retained row has a total cost at least that of
  every dropped row, fails: the int totals \<open>2\<^bsup>53\<^esup>\<close> and \<open>2\<^bsup>53\<^esup> + 1\<close> have the same
  float key, the stable sort keeps the first, and the row that is dropped has the
  greater total cost.
\<close>

theorem compact_ranks_by_float_key:
  "fst (compact_aggregated_costs sample_runtime
          [int_row ''A'' 9007199254740992, int_row ''B'' 9007199254740993] 1 ''default'' Map.empty) =
     Inr [int_row ''A'' 9007199254740992] \<and>
   py_gt (row_get (int_row ''B'' 9007199254740993) ''total_cost'' PNone)
         (row_get (int_row ''A'' 9007199254740992) ''total_cost'' PNone) = Inr True"
  by (simp add: compact_aggregated_costs_def int_row_def row_get_def slice_to_def
      get_session_memory_def Let_def sorted_desc_def float_lt_def py_gt_def
      sample_runtime_def int_to_float_def)


theorem compact_top_rows_witness:
  "(0::int) \<le> 1 \<and>
   list_all (cost_coerces sample_runtime)
     [agg_row ''North'' ''personnel'' 30 0, agg_row ''South'' ''aircraft'' 150 7] \<and>
   list_all (\<lambda>r. sort_cost sample_runtime r \<noteq> NaN)
     [agg_row ''North'' ''personnel'' 30 0, agg_row ''South'' ''aircraft'' 150 7] \<and>
   (\<exists>out. fst (compact_aggregated_costs sample_runtime
              [agg_row ''North'' ''personnel'' 30 0, agg_row ''South'' ''aircraft'' 150 7]
              1 ''default'' Map.empty) = Inr out \<and>
      length out = min (nat 1) (length [agg_row ''North'' ''personnel'' 30 0, agg_row ''South'' ''aircraft'' 150 7]) \<and>
      sorted_wrt (\<lambda>a b. \<not> float_lt (sort_cost sample_runtime a) (sort_cost sample_runtime b)) out \<and>
      (\<forall>c. prefix (filter (\<lambda>r. float_eq (sort_cost sample_runtime r) c) out)
             (filter (\<lambda>r. float_eq (sort_cost sample_runtime r) c)
                [agg_row ''North'' ''personnel'' 30 0, agg_row ''South'' ''aircraft'' 150 7])) \<and>
      mset out \<subseteq># mset [agg_row ''North'' ''personnel'' 30 0, agg_row ''South'' ''aircraft'' 150 7] \<and>
      (\<forall>r \<in> set out. \<forall>d \<in># mset [agg_row ''North'' ''personnel'' 30 0, agg_row ''South'' ''aircraft'' 150 7] - mset out.
          \<not> float_lt (sort_cost sample_runtime r) (sort_cost sample_runtime d)))"
proof -
  have k: "(0::int) \<le> 1" by simp
  have h: "list_all (cost_coerces sample_runtime)
     [agg_row ''North'' ''personnel'' 30 0, agg_row ''South'' ''aircraft'' 150 7]"
    by (simp add: cost_coerces_def succeeds_def agg_row_def row_get_def)
  have n: "list_all (\<lambda>r. sort_cost sample_runtime r \<noteq> NaN)
     [agg_row ''North'' ''personnel'' 30 0, agg_row ''South'' ''aircraft'' 150 7]"
    by (simp add: sort_cost_def agg_row_def row_get_def)
  from compact_top_rows[OF k h n, of "''default''" Map.empty] k h n show ?thesis by blast
qed

text \<open>The second step of the end-to-end scenario, from rows in ascending order.\<close>

lemma compact_scenario:
  "fst (compact_aggregated_costs sample_runtime
          [agg_row ''North'' ''personnel'' 30 0, agg_row ''South'' ''aircraft'' 150 7]
          1 ''default'' Map.empty) = Inr [agg_row ''South'' ''aircraft'' 150 7]"
  by (simp add: compact_aggregated_costs_def agg_row_def row_get_def slice_to_def
      get_session_memory_def Let_def sorted_desc_def float_lt_def)

lemma sort_desc_keys:
  "list_all (\<lambda>p. fst p = f (snd p)) ps \<Longrightarrow> list_all (\<lambda>p. fst p = f (snd p)) (sort_desc ps)"
  by (simp add: list_all_iff set_sort_desc)

lemma decorate_undo:
  "list_all (\<lambda>p. fst p = f (snd p)) ps \<Longrightarrow> map (\<lambda>r. (f r, r)) (map snd ps) = ps"
  by (induction ps) auto

lemma ranked_take_fixed:
  "ranked B (take n (ranked B A)) = take n (ranked B A)"
proof -
  let ?f = "sort_cost B"
  define S where "S = sort_desc (map (\<lambda>r. (?f r, r)) A)"
  have r: "ranked B A = map snd S" by (simp add: ranked_def sorted_desc_def zip_map_self S_def)
  have "list_all (\<lambda>p. fst p = ?f (snd p)) (map (\<lambda>r. (?f r, r)) A)" by (simp add: list_all_iff)
  then have "list_all (\<lambda>p. fst p = ?f (snd p)) S" unfolding S_def by (rule sort_desc_keys)
  then have "list_all (\<lambda>p. fst p = ?f (snd p)) (take n S)"
    by (auto simp: list_all_iff dest: in_set_takeD)
  then have d: "map (\<lambda>r. (?f r, r)) (map snd (take n S)) = take n S" by (rule decorate_undo)
  have "descending (take n S)" unfolding S_def by (intro descending_take descending_sort_desc)
  then have "sort_desc (take n S) = take n S" by (rule sort_desc_id)
  moreover have "ranked B (map snd (take n S)) =
      map snd (sort_desc (map (\<lambda>r. (?f r, r)) (map snd (take n S))))"
    by (simp only: ranked_def sorted_desc_def zip_map_self)
  ultimately have "ranked B (map snd (take n S)) = map snd (take n S)"
    by (simp only: d)
  then show ?thesis by (simp add: r take_map)
qed

text \<open>
  Claim C7. Compaction is idempotent: for \<open>0 \<le> k\<close>, compacting the rows that a
  compaction with the same \<open>k\<close> returned gives the same rows again, in any session and
  any state of the session memory.
\<close>

theorem compact_idempotent:
  assumes "0 \<le> k" and "fst (compact_aggregated_costs B A k s st) = Inr out"
  shows "fst (compact_aggregated_costs B out k s' st') = Inr out"
proof -
  from compact_Inr[OF assms(2)] assms(1)
  have c: "list_all (cost_coerces B) A" and out: "out = take (nat k) (ranked B A)"
    by (simp_all add: slice_to_def)
  have "mset (ranked B A) = mset A" unfolding ranked_def by (rule mset_sorted_desc) simp
  then have "set (ranked B A) = set A" by (rule mset_eq_setD)
  then have "set out \<subseteq> set A" unfolding out using set_take_subset[of "nat k" "ranked B A"] by simp
  then have c': "list_all (cost_coerces B) out" using c by (auto simp: list_all_iff)
  have r: "ranked B out = out" unfolding out by (rule ranked_take_fixed)
  have "length out \<le> nat k" by (simp add: out)
  then have "take (nat k) out = out" by simp
  with compact_ranked[OF c', of k s' st'] r assms(1) show ?thesis by (simp add: slice_to_def)
qed

theorem compact_idempotent_witness:
  "(0::int) \<le> 1 \<and>
   fst (compact_aggregated_costs sample_runtime
          [agg_row ''North'' ''personnel'' 30 0, agg_row ''South'' ''aircraft'' 150 7]
          1 ''default'' Map.empty) = Inr [agg_row ''South'' ''aircraft'' 150 7] \<and>
   fst (compact_aggregated_costs sample_runtime [agg_row ''South'' ''aircraft'' 150 7]
          1 ''default'' Map.empty) = Inr [agg_row ''South'' ''aircraft'' 150 7]"
proof -
  have k: "(0::int) \<le> 1" by simp
  have h: "fst (compact_aggregated_costs sample_runtime
          [agg_row ''North'' ''personnel'' 30 0, agg_row ''South'' ''aircraft'' 150 7]
          1 ''default'' Map.empty) = Inr [agg_row ''South'' ''aircraft'' 150 7]"
    by (simp add: compact_aggregated_costs_def agg_row_def row_get_def slice_to_def
      get_session_memory_def Let_def sorted_desc_def float_lt_def)
  from compact_idempotent[OF k h, of "''default''" Map.empty] k h show ?thesis by blast
qed

section \<open>Properties of get_last_summary\<close>

lemma get_session_memory_eq:
  "get_session_memory s st = (memory_of st s, st(s \<mapsto> memory_of st s))"
  by (auto simp: get_session_memory_def memory_of_def split: option.splits)

lemma summary_of_upd_same: "summary_of (st(s \<mapsto> m)) s = last_summary m"
  by (simp add: summary_of_def)

lemma summary_of_upd_other: "s' \<noteq> s \<Longrightarrow> summary_of (st(s' \<mapsto> m)) s = summary_of st s"
  by (simp add: summary_of_def)

lemma summary_of_memory_of: "last_summary (memory_of st s) = summary_of st s"
  by (simp add: summary_of_def memory_of_def fresh_memory_def split: option.splits)

lemma get_last_summary_fst:
  "fst (get_last_summary s st) =
     (case summary_of st s of None \<Rightarrow> no_previous_summary
      | Some t \<Rightarrow> if t = [] then no_previous_summary else t)"
  by (simp add: get_last_summary_def get_session_memory_eq summary_of_memory_of split: option.splits)

lemma get_last_summary_snd:
  "snd (get_last_summary s st) = st(s \<mapsto> memory_of st s)"
  by (simp add: get_last_summary_def get_session_memory_eq split: option.splits)

lemma aggregate_costs_snd:
  "snd (aggregate_costs B R s st) =
     (case fst (aggregate_costs B R s st) of
        Inl e \<Rightarrow> st
      | Inr out \<Rightarrow> st(s \<mapsto> (memory_of st s)\<lparr> last_aggregated := Some out \<rparr>))"
  by (simp add: aggregate_costs_def get_session_memory_eq Let_def split: sum.splits)

lemma compact_snd:
  "snd (compact_aggregated_costs B A k s st) =
     (case fst (compact_aggregated_costs B A k s st) of
        Inl e \<Rightarrow> st
      | Inr out \<Rightarrow> st(s \<mapsto> (memory_of st s)\<lparr> last_compacted := Some out \<rparr>))"
  by (simp add: compact_aggregated_costs_def get_session_memory_eq Let_def split: sum.splits)

lemma build_cost_table_cases:
  "build_cost_table B a s st = (Inr could_not_parse, st) \<or>
   build_cost_table B a s st = (Inr no_cost_data, st) \<or>
   (\<exists>e. build_cost_table B a s st = (Inl e, st)) \<or>
   (\<exists>agg out. render_report B agg = Inr out \<and>
      build_cost_table B a s st = (Inr out, st(s \<mapsto> (memory_of st s)\<lparr> last_summary := Some out \<rparr>)))"
  by (auto simp: build_cost_table_def parse_argument_def get_session_memory_eq Let_def
      split: sum.splits pyobj.splits pyval.splits option.splits)

lemma load_snd:
  "snd (load_mock_wildfire_costs B y s st) =
     st(s \<mapsto> (memory_of st s)\<lparr> last_year := Some y, last_raw_records := Some (mock_data B) \<rparr>)"
  by (simp add: load_mock_wildfire_costs_def get_session_memory_eq Let_def)

lemma search_snd:
  "snd (google_search outcome q s st) =
     (case outcome of Diagnostic msg \<Rightarrow> st
      | Results t \<Rightarrow> st(s \<mapsto> (memory_of st s)\<lparr> last_search_query := Some q, last_search_results := Some t \<rparr>))"
  by (simp add: google_search_def get_session_memory_eq split: search_outcome.splits)

lemma run_call_summary:
  "\<not> renders_for s c \<Longrightarrow> summary_of (run_call B c st) s = summary_of st s"
proof (cases c)
  case (LoadCall y sid)
  then show ?thesis
    by (cases "sid = s") (simp_all add: load_snd summary_of_upd_same summary_of_upd_other summary_of_memory_of)
next
  case (AggregateCall R sid)
  then show ?thesis
    by (cases "sid = s")
       (simp_all add: aggregate_costs_snd summary_of_upd_same summary_of_upd_other summary_of_memory_of
          split: sum.splits)
next
  case (CompactCall A k sid)
  then show ?thesis
    by (cases "sid = s")
       (simp_all add: compact_snd summary_of_upd_same summary_of_upd_other summary_of_memory_of
          split: sum.splits)
next
  case (RenderCall a sid)
  assume "\<not> renders_for s c"
  then have ne: "sid \<noteq> s" using RenderCall by simp
  from build_cost_table_cases[of B a sid st] show ?thesis
    using ne RenderCall by (auto simp: summary_of_upd_other)
next
  case (LastSummaryCall sid)
  then show ?thesis
    by (cases "sid = s")
       (simp_all add: get_last_summary_snd summary_of_upd_same summary_of_upd_other summary_of_memory_of)
next
  case (SearchCall outcome q sid)
  then show ?thesis
    by (cases "sid = s")
       (simp_all add: search_snd summary_of_upd_same summary_of_upd_other summary_of_memory_of
          split: search_outcome.splits)
qed

lemma run_calls_summary:
  "list_all (\<lambda>c. \<not> renders_for s c) cs \<Longrightarrow> summary_of (run_calls B cs st) s = summary_of st s"
  by (induction cs arbitrary: st) (simp_all add: run_call_summary)

lemma render_report_nonempty: "render_report B agg = Inr out \<Longrightarrow> out \<noteq> []"
  by (auto simp: render_report_def Let_def newline_def split: sum.splits)

text \<open>
  Claim C4. In a process that starts with an empty session memory, after any sequence
  of tool calls none of which is a \<open>build_cost_table\<close> call for the session \<open>s\<close>,
  \<open>get_last_summary s\<close> returns the fixed text. After a \<open>build_cost_table\<close> call
  for \<open>s\<close> that produced a report (its result is neither of the two fallback texts),
  and any further calls that are not \<open>build_cost_table\<close> calls for \<open>s\<close>,
  \<open>get_last_summary s\<close> returns exactly the report of that call.
\<close>

theorem get_last_summary_after_render:
  "(list_all (\<lambda>c. \<not> renders_for s c) cs \<longrightarrow>
      fst (get_last_summary s (run_calls B cs Map.empty)) =
        ''I don't have a previous summary stored yet in this session.'') \<and>
   (build_cost_table B a s st = (Inr out, st') \<and> out \<noteq> no_cost_data \<and> out \<noteq> could_not_parse \<and>
    list_all (\<lambda>c. \<not> renders_for s c) cs' \<longrightarrow>
      fst (get_last_summary s (run_calls B cs' st')) = out)"
proof (intro conjI impI)
  assume "list_all (\<lambda>c. \<not> renders_for s c) cs"
  then have "summary_of (run_calls B cs Map.empty) s = summary_of Map.empty s"
    by (rule run_calls_summary)
  then have "summary_of (run_calls B cs Map.empty) s = None"
    by (simp add: summary_of_def)
  then show "fst (get_last_summary s (run_calls B cs Map.empty)) =
        ''I don't have a previous summary stored yet in this session.''"
    by (simp add: get_last_summary_fst no_previous_summary_def)
next
  assume a: "build_cost_table B a s st = (Inr out, st') \<and> out \<noteq> no_cost_data \<and>
    out \<noteq> could_not_parse \<and> list_all (\<lambda>c. \<not> renders_for s c) cs'"
  from build_cost_table_cases[of B a s st] a
  obtain agg where r: "render_report B agg = Inr out"
    and st': "st' = st(s \<mapsto> (memory_of st s)\<lparr> last_summary := Some out \<rparr>)"
    by auto
  have "summary_of (run_calls B cs' st') s = Some out"
    using a by (simp add: run_calls_summary st' summary_of_upd_same)
  then show "fst (get_last_summary s (run_calls B cs' st')) = out"
    using render_report_nonempty[OF r] by (simp add: get_last_summary_fst)
qed


text \<open>The last step of the end-to-end scenario: the report of the compacted row, and
  the session memory after it.\<close>

lemma render_scenario:
  "build_cost_table sample_runtime scenario_table ''default'' Map.empty =
     (Inr (''Region | Category | Total Cost ($) | Hours'' @ newline @
           ''---|---|---|---'' @ newline @
           ''South | aircraft | 150.00 | 7.0'' @ newline @ newline @
           ''Here's a summary of the wildfire costs based on the synthetic data:'' @ newline @ newline @
           ''**Key Insights:**'' @ newline @
           ''- **Largest Single Bucket:** South '' @ en_dash @ '' aircraft at $150.00.'' @ newline @
           ''- **By Category:** Aircraft ($150.00), Personnel ($0.00), Equipment ($0.00).'' @ newline @
           ''- Aircraft is the dominant cost driver across regions, with personnel generally higher than equipment.''),
      [''default'' \<mapsto> fresh_memory\<lparr> last_summary := Some
          (''Region | Category | Total Cost ($) | Hours'' @ newline @
           ''---|---|---|---'' @ newline @
           ''South | aircraft | 150.00 | 7.0'' @ newline @ newline @
           ''Here's a summary of the wildfire costs based on the synthetic data:'' @ newline @ newline @
           ''**Key Insights:**'' @ newline @
           ''- **Largest Single Bucket:** South '' @ en_dash @ '' aircraft at $150.00.'' @ newline @
           ''- **By Category:** Aircraft ($150.00), Personnel ($0.00), Equipment ($0.00).'' @ newline @
           ''- Aircraft is the dominant cost driver across regions, with personnel generally higher than equipment.'') \<rparr>])"
  by (simp add: build_cost_table_def parse_argument_def scenario_table_def render_report_def
      table_header_def agg_row_def row_get_def py_max_def summary_text_def int_to_float_def
      sample_runtime_def sample_add_def sample_num_def
      newline_def en_dash_def get_session_memory_def Let_def)

theorem get_last_summary_after_render_witness:
  "list_all (\<lambda>c. \<not> renders_for ''default'' c)
     [LoadCall 2024 ''default'', AggregateCall scenario_records ''default'', LastSummaryCall ''default''] \<and>
   fst (get_last_summary ''default''
     (run_calls sample_runtime
        [LoadCall 2024 ''default'', AggregateCall scenario_records ''default'', LastSummaryCall ''default'']
        Map.empty)) = ''I don't have a previous summary stored yet in this session.'' \<and>
   list_all (\<lambda>c. \<not> renders_for ''default'' c) [CompactCall [] 6 ''default''] \<and>
   fst (build_cost_table sample_runtime scenario_table ''default'' Map.empty) \<noteq> Inr no_cost_data \<and>
   fst (build_cost_table sample_runtime scenario_table ''default'' Map.empty) \<noteq> Inr could_not_parse \<and>
   Inr (fst (get_last_summary ''default''
     (run_calls sample_runtime [CompactCall [] 6 ''default'']
        (snd (build_cost_table sample_runtime scenario_table ''default'' Map.empty))))) =
     fst (build_cost_table sample_runtime scenario_table ''default'' Map.empty)"
proof -
  let ?cs = "[LoadCall 2024 ''default'', AggregateCall scenario_records ''default'', LastSummaryCall ''default'']"
  let ?cs' = "[CompactCall [] 6 ''default'']"
  obtain out st' where b: "build_cost_table sample_runtime scenario_table ''default'' Map.empty = (Inr out, st')"
    using render_scenario by blast
  have n1: "out \<noteq> no_cost_data" and n2: "out \<noteq> could_not_parse"
    using b unfolding render_scenario by (auto simp: no_cost_data_def could_not_parse_def)
  have h1: "list_all (\<lambda>c. \<not> renders_for ''default'' c) ?cs" by simp
  have h2: "list_all (\<lambda>c. \<not> renders_for ''default'' c) ?cs'" by simp
  from get_last_summary_after_render[of "''default''" ?cs sample_runtime scenario_table Map.empty out st' ?cs']
    h1 h2 b n1 n2
  show ?thesis by simp
qed

section \<open>Frame properties of the session memory\<close>

text \<open>
  The claim C6 as stated, that \<open>get_last_summary\<close> never changes the set of stored
  session identifiers, fails on a new identifier: the call goes through
  \<open>get_session_memory\<close>, which creates the memory.
\<close>

theorem get_last_summary_creates_memory:
  "(Map.empty :: store) ''default'' = None \<and>
   snd (get_last_summary ''default'' Map.empty) ''default'' = Some fresh_memory \<and>
   snd (get_last_summary ''default'' Map.empty) \<noteq> Map.empty"
proof -
  have a: "snd (get_last_summary ''default'' Map.empty) ''default'' = Some fresh_memory"
    by (simp add: get_last_summary_snd memory_of_def)
  then have "snd (get_last_summary ''default'' Map.empty) \<noteq> Map.empty"
    by (metis option.distinct(1))
  with a show ?thesis by simp
qed

text \<open>
  Claim C6, as amended. \<open>get_last_summary s\<close> leaves the session memory as it was
  when \<open>s\<close> already has a memory. For a new identifier it adds a memory for \<open>s\<close>
  with every field \<open>None\<close>. In both cases every other session is untouched, and no
  field of the memory that a tool finds for \<open>s\<close> changes.
\<close>

theorem get_last_summary_frame:
  "(st s \<noteq> None \<longrightarrow> snd (get_last_summary s st) = st) \<and>
   (st s = None \<longrightarrow> snd (get_last_summary s st) = st(s \<mapsto> fresh_memory)) \<and>
   (\<forall>s'. s' \<noteq> s \<longrightarrow> snd (get_last_summary s st) s' = st s') \<and>
   memory_of (snd (get_last_summary s st)) s = memory_of st s"
  by (auto simp: get_last_summary_snd memory_of_def fun_upd_idem)

theorem get_last_summary_frame_witness:
  "[''a'' \<mapsto> fresh_memory\<lparr> last_year := Some 2024 \<rparr>] ''a'' \<noteq> None \<and>
   snd (get_last_summary ''a'' [''a'' \<mapsto> fresh_memory\<lparr> last_year := Some 2024 \<rparr>]) =
     [''a'' \<mapsto> fresh_memory\<lparr> last_year := Some 2024 \<rparr>] \<and>
   [''a'' \<mapsto> fresh_memory\<lparr> last_year := Some 2024 \<rparr>] ''b'' = None \<and>
   snd (get_last_summary ''b'' [''a'' \<mapsto> fresh_memory\<lparr> last_year := Some 2024 \<rparr>]) =
     [''a'' \<mapsto> fresh_memory\<lparr> last_year := Some 2024 \<rparr>, ''b'' \<mapsto> fresh_memory] \<and>
   ''a'' \<noteq> ''b'' \<and>
   snd (get_last_summary ''b'' [''a'' \<mapsto> fresh_memory\<lparr> last_year := Some 2024 \<rparr>]) ''a'' =
     Some (fresh_memory\<lparr> last_year := Some 2024 \<rparr>)"
  using get_last_summary_frame[of "[''a'' \<mapsto> fresh_memory\<lparr> last_year := Some 2024 \<rparr>]" "''a''"]
    get_last_summary_frame[of "[''a'' \<mapsto> fresh_memory\<lparr> last_year := Some 2024 \<rparr>]" "''b''"]
  by simp

text \<open>
  Claim C8. On the empty list, and on a string that \<^verbatim>\<open>json.loads\<close> parses to a value
  of length 0, \<open>build_cost_table\<close> returns the fixed text
  \<^verbatim>\<open>No cost data available.\<close> and the session memory is exactly what it was.
\<close>

theorem render_empty_input:
  "build_cost_table B (ListObj []) s st = (Inr ''No cost data available.'', st) \<and>
   (json_loads B txt = Some v \<and> py_len v = Inr 0 \<longrightarrow>
      build_cost_table B (Scalar (PStr txt)) s st = (Inr ''No cost data available.'', st))"
proof (intro conjI impI)
  show "build_cost_table B (ListObj []) s st = (Inr ''No cost data available.'', st)"
    by (simp add: build_cost_table_def parse_argument_def no_cost_data_def)
next
  assume a: "json_loads B txt = Some v \<and> py_len v = Inr 0"
  then have "\<not> py_truthy v"
    by (cases v rule: py_len.cases) auto
  then show "build_cost_table B (Scalar (PStr txt)) s st = (Inr ''No cost data available.'', st)"
    using a by (simp add: build_cost_table_def parse_argument_def no_cost_data_def)
qed

theorem render_empty_input_witness:
  "json_loads sample_runtime ''[]'' = Some (ListObj []) \<and> py_len (ListObj []) = Inr 0 \<and>
   build_cost_table sample_runtime (Scalar (PStr ''[]'')) ''default''
       [''default'' \<mapsto> fresh_memory\<lparr> last_summary := Some ''old'' \<rparr>] =
     (Inr ''No cost data available.'', [''default'' \<mapsto> fresh_memory\<lparr> last_summary := Some ''old'' \<rparr>])"
  using render_empty_input[of sample_runtime "''default''"
      "[''default'' \<mapsto> fresh_memory\<lparr> last_summary := Some ''old'' \<rparr>]" "''[]''" "ListObj []"]
  by (simp add: sample_runtime_def)

text \<open>
  Claim C10. \<open>aggregate_costs\<close>, \<open>compact_aggregated_costs\<close> and
  \<open>build_cost_table\<close>, called for the session \<open>s\<close>, either leave the session memory
  as it was (when they raise, or return a fallback text) or replace the memory of \<open>s\<close>
  by the memory a tool finds for \<open>s\<close> (the stored one, or a new one with every field
  \<open>None\<close>) with one field changed: \<open>last_aggregated\<close>, \<open>last_compacted\<close> and
  \<open>last_summary\<close> respectively, set to the returned value. The memory of every other
  session is unchanged.
\<close>

theorem stages_write_their_own_field:
  "snd (aggregate_costs B R s st) =
     (case fst (aggregate_costs B R s st) of
        Inl e \<Rightarrow> st
      | Inr out \<Rightarrow> st(s \<mapsto> (memory_of st s)\<lparr> last_aggregated := Some out \<rparr>)) \<and>
   snd (compact_aggregated_costs B A k s st) =
     (case fst (compact_aggregated_costs B A k s st) of
        Inl e \<Rightarrow> st
      | Inr out \<Rightarrow> st(s \<mapsto> (memory_of st s)\<lparr> last_compacted := Some out \<rparr>)) \<and>
   (snd (build_cost_table B a s st) = st \<or>
    (\<exists>out. fst (build_cost_table B a s st) = Inr out \<and>
       snd (build_cost_table B a s st) = st(s \<mapsto> (memory_of st s)\<lparr> last_summary := Some out \<rparr>))) \<and>
   (\<forall>s'. s' \<noteq> s \<longrightarrow>
      snd (aggregate_costs B R s st) s' = st s' \<and>
      snd (compact_aggregated_costs B A k s st) s' = st s' \<and>
      snd (build_cost_table B a s st) s' = st s')"
proof -
  have b: "snd (build_cost_table B a s st) = st \<or>
    (\<exists>out. fst (build_cost_table B a s st) = Inr out \<and>
       snd (build_cost_table B a s st) = st(s \<mapsto> (memory_of st s)\<lparr> last_summary := Some out \<rparr>))"
    using build_cost_table_cases[of B a s st] by auto
  have "snd (aggregate_costs B R s st) s' = st s'" if "s' \<noteq> s" for s'
    using that by (simp add: aggregate_costs_snd split: sum.splits)
  moreover have "snd (compact_aggregated_costs B A k s st) s' = st s'" if "s' \<noteq> s" for s'
    using that by (simp add: compact_snd split: sum.splits)
  moreover have "snd (build_cost_table B a s st) s' = st s'" if "s' \<noteq> s" for s'
    using that b by auto
  ultimately show ?thesis
    using b aggregate_costs_snd[of B R s st] compact_snd[of B A k s st] by blast
qed


theorem stages_write_their_own_field_witness:
  "''a'' \<noteq> ''b'' \<and>
   snd (aggregate_costs sample_runtime scenario_records ''b''
          [''a'' \<mapsto> fresh_memory\<lparr> last_year := Some 2024 \<rparr>]) ''a'' =
     Some (fresh_memory\<lparr> last_year := Some 2024 \<rparr>) \<and>
   snd (compact_aggregated_costs sample_runtime [agg_row ''South'' ''aircraft'' 150 7] 6 ''b''
          [''a'' \<mapsto> fresh_memory\<lparr> last_year := Some 2024 \<rparr>]) ''a'' =
     Some (fresh_memory\<lparr> last_year := Some 2024 \<rparr>) \<and>
   snd (build_cost_table sample_runtime scenario_table ''b''
          [''a'' \<mapsto> fresh_memory\<lparr> last_year := Some 2024 \<rparr>]) ''a'' =
     Some (fresh_memory\<lparr> last_year := Some 2024 \<rparr>)"
proof -
  let ?st = "[''a'' \<mapsto> fresh_memory\<lparr> last_year := Some 2024 \<rparr>]"
  have "\<forall>s'. s' \<noteq> ''b'' \<longrightarrow>
      snd (aggregate_costs sample_runtime scenario_records ''b'' ?st) s' = ?st s' \<and>
      snd (compact_aggregated_costs sample_runtime [agg_row ''South'' ''aircraft'' 150 7] 6 ''b'' ?st) s' = ?st s' \<and>
      snd (build_cost_table sample_runtime scenario_table ''b'' ?st) s' = ?st s'"
    using stages_write_their_own_field[of sample_runtime scenario_records "''b''" ?st
      "[agg_row ''South'' ''aircraft'' 150 7]" 6 scenario_table]
    by (elim conjE)
  from this[rule_format, of "''a''"] show ?thesis by simp
qed

section \<open>Properties of build_cost_table\<close>

lemma table_lines_acc:
  "table_lines B rows acc = Inr ls \<Longrightarrow>
   \<exists>ms. ls = acc @ ms \<and> list_all2 (\<lambda>r l. table_line B r = Inr l) rows ms"
proof (induction rows arbitrary: acc)
  case Nil
  then show ?case by simp
next
  case (Cons r rows)
  then obtain l where l: "table_line B r = Inr l"
    and rest: "table_lines B rows (acc @ [l]) = Inr ls"
    by (auto split: sum.splits)
  from Cons.IH[OF rest] obtain ms where "ls = (acc @ [l]) @ ms"
    "list_all2 (\<lambda>r l. table_line B r = Inr l) rows ms" by blast
  then have "ls = acc @ (l # ms) \<and> list_all2 (\<lambda>r l. table_line B r = Inr l) (r # rows) (l # ms)"
    using l by simp
  then show ?case by blast
qed

lemma render_report_Inr:
  "render_report B (ListObj rows) = Inr out \<Longrightarrow>
   \<exists>ls rest. table_lines B rows table_header = Inr ls \<and>
      out = join newline ls @ newline @ newline @ rest"
  by (auto simp: render_report_def split: sum.splits)

text \<open>
  Claim C3, as amended. The text that \<open>build_cost_table\<close> returns depends on its
  argument only: the same rows in the same order give the same text in every session
  and every state of the session memory. The text is not independent of the order of
  the rows: after the two header lines its table has one line per row, in the order
  of the input.
\<close>

theorem render_deterministic:
  "fst (build_cost_table B a s1 st1) = fst (build_cost_table B a s2 st2) \<and>
   (rows \<noteq> [] \<and> fst (build_cost_table B (ListObj rows) s st) = Inr out \<longrightarrow>
      (\<exists>lines rest. list_all2 (\<lambda>r l. table_line B r = Inr l) rows lines \<and>
         out = join newline (table_header @ lines) @ newline @ newline @ rest))"
proof (intro conjI impI)
  show "fst (build_cost_table B a s1 st1) = fst (build_cost_table B a s2 st2)"
    by (simp add: build_cost_table_def Let_def split: sum.splits prod.splits)
next
  assume a: "rows \<noteq> [] \<and> fst (build_cost_table B (ListObj rows) s st) = Inr out"
  then have "render_report B (ListObj rows) = Inr out"
    by (auto simp: build_cost_table_def parse_argument_def Let_def split: sum.splits prod.splits)
  then obtain ls rest where ls: "table_lines B rows table_header = Inr ls"
    and out: "out = join newline ls @ newline @ newline @ rest"
    using render_report_Inr by blast
  from table_lines_acc[OF ls] obtain ms where "ls = table_header @ ms"
    "list_all2 (\<lambda>r l. table_line B r = Inr l) rows ms" by blast
  then show "\<exists>lines rest. list_all2 (\<lambda>r l. table_line B r = Inr l) rows lines \<and>
         out = join newline (table_header @ lines) @ newline @ newline @ rest"
    using out by blast
qed

text \<open>The claim C3 as stated fails: two orders of the same two rows give different
  texts.\<close>

theorem render_depends_on_order:
  "mset [DictObj (agg_row ''South'' ''aircraft'' 150 7), DictObj (agg_row ''North'' ''personnel'' 30 0)] =
   mset [DictObj (agg_row ''North'' ''personnel'' 30 0), DictObj (agg_row ''South'' ''aircraft'' 150 7)] \<and>
   fst (build_cost_table sample_runtime
          (ListObj [DictObj (agg_row ''South'' ''aircraft'' 150 7),
                    DictObj (agg_row ''North'' ''personnel'' 30 0)]) ''default'' Map.empty) \<noteq>
   fst (build_cost_table sample_runtime
          (ListObj [DictObj (agg_row ''North'' ''personnel'' 30 0),
                    DictObj (agg_row ''South'' ''aircraft'' 150 7)]) ''default'' Map.empty)"
  by (simp add: build_cost_table_def parse_argument_def render_report_def
      table_header_def agg_row_def row_get_def py_max_def py_gt_def float_lt_def
      summary_text_def int_to_float_def sample_runtime_def sample_add_def sample_num_def
      newline_def en_dash_def get_session_memory_def Let_def)

theorem render_deterministic_witness:
  "fst (build_cost_table sample_runtime scenario_table ''a'' Map.empty) =
   fst (build_cost_table sample_runtime scenario_table ''b'' [''a'' \<mapsto> fresh_memory]) \<and>
   [DictObj (agg_row ''South'' ''aircraft'' 150 7)] \<noteq> [] \<and>
   (\<exists>out lines rest.
      fst (build_cost_table sample_runtime (ListObj [DictObj (agg_row ''South'' ''aircraft'' 150 7)])
             ''default'' Map.empty) = Inr out \<and>
      list_all2 (\<lambda>r l. table_line sample_runtime r = Inr l)
        [DictObj (agg_row ''South'' ''aircraft'' 150 7)] lines \<and>
      out = join newline (table_header @ lines) @ newline @ newline @ rest)"
proof -
  let ?rows = "[DictObj (agg_row ''South'' ''aircraft'' 150 7)]"
  obtain out where o: "fst (build_cost_table sample_runtime (ListObj ?rows) ''default'' Map.empty) = Inr out"
    using render_scenario by (simp add: scenario_table_def)
  have ne: "?rows \<noteq> []" by simp
  from render_deterministic[of sample_runtime scenario_table "''a''" Map.empty "''b''"
      "[''a'' \<mapsto> fresh_memory]" ?rows "''default''" Map.empty out] o ne
  show ?thesis by blast
qed












text \<open>Nor is a number enough: an int total that the runtime cannot convert raises
  \<^verbatim>\<open>OverflowError\<close> in the table section.\<close>

lemma render_overflow_example:
  "big_int_to_float B (2 ^ 1024) = None \<Longrightarrow>
   build_cost_table B
     (ListObj [DictObj [(''region'', PStr ''South''), (''category'', PStr ''aircraft''),
                        (''total_cost'', PInt (2 ^ 1024))]]) s st = (Inl OverflowError, st)"
  by (simp add: build_cost_table_def parse_argument_def render_report_def
      table_header_def row_get_def int_to_float_def)


end
